theory Spec2Isabelle
  imports Main "HOL-Library.Word"
begin

section \<open>Client-side instruction builders\<close>

text \<open>
  The instruction builders of the web client (the module that the UI imports as
  \<^verbatim>\<open>@/lib/instructions\<close>) and the address helper of the test suite
  (\<^verbatim>\<open>tests/solsplit.ts\<close>). A JavaScript exception is a value \<open>Inl e\<close>.
\<close>

type_synonym byte = "8 word"

text \<open>A \<^verbatim>\<open>PublicKey\<close> of web3.js is its 32-byte buffer.\<close>

datatype PublicKey = PublicKey (toBuffer: "byte list")

datatype js_error =
    BN_AssertionFailed      \<comment> \<open>\<^verbatim>\<open>new BN(number)\<close> with \<^verbatim>\<open>number >= 2^53\<close>\<close>
  | BN_ByteArrayTooLong     \<comment> \<open>\<^verbatim>\<open>toArrayLike\<close>: byte array longer than desired length\<close>

record AccountMeta =
  pubkey :: PublicKey
  isSigner :: bool
  isWritable :: bool

record TransactionInstruction =
  keys :: "AccountMeta list"
  programId :: PublicKey
  data :: "byte list"

text \<open>
  \<^verbatim>\<open>PROGRAM_ID_STRING = '7dChiG6VDtneaVXxd2gdtg6MxsPXTvYUnEPEgP4sFKts'\<close> (config.ts);
  \<^verbatim>\<open>new PublicKey(PROGRAM_ID_STRING)\<close> is the 32 bytes that this base-58 string denotes.
\<close>

definition PROGRAM_ID :: PublicKey where
  "PROGRAM_ID = PublicKey
     [98, 108, 67, 24, 57, 192, 76, 107, 80, 47, 195, 2, 94, 90, 169, 113,
      9, 122, 135, 118, 73, 85, 160, 72, 214, 102, 200, 25, 247, 100, 172, 120]"

text \<open>\<^verbatim>\<open>SystemProgram.programId\<close> is the all-zero key \<^verbatim>\<open>11111111111111111111111111111111\<close>.\<close>

definition SystemProgram_programId :: PublicKey where
  "SystemProgram_programId = PublicKey (replicate 32 0)"

text \<open>\<^verbatim>\<open>Buffer.from(string)\<close> on an ASCII string, and \<^verbatim>\<open>Buffer.from(number[])\<close>,
  which keeps the low eight bits of every entry (a JavaScript number that is an integer).\<close>

definition Buffer_from_string :: "string \<Rightarrow> byte list" where
  "Buffer_from_string s = map (\<lambda>c. of_nat (of_char c)) s"

definition Buffer_from :: "int list \<Rightarrow> byte list" where
  "Buffer_from xs = map of_int xs"

definition INITIALIZE_SPLIT :: "byte list" where
  "INITIALIZE_SPLIT = Buffer_from [53, 17, 92, 9, 84, 151, 173, 78]"

definition EXECUTE_SPLIT :: "byte list" where
  "EXECUTE_SPLIT = Buffer_from [6, 45, 171, 40, 49, 129, 23, 89]"

subsection \<open>The big-number library as the builders use it\<close>

text \<open>
  A \<^verbatim>\<open>BN\<close> holding a non-negative integer is that \<open>nat\<close>. The constructor from a
  JavaScript number asserts \<^verbatim>\<open>number < 0x20000000000000\<close>.
\<close>

definition BN_of_number :: "nat \<Rightarrow> js_error + nat" where
  "BN_of_number num = (if num < 2 ^ 53 then Inr num else Inl BN_AssertionFailed)"

text \<open>The \<open>k\<close> low bytes of \<open>n\<close>, least significant first.\<close>

fun toArrayLE :: "nat \<Rightarrow> nat \<Rightarrow> byte list" where
  "toArrayLE 0 n = []"
| "toArrayLE (Suc k) n = of_nat (n mod 256) # toArrayLE k (n div 256)"

text \<open>
  \<^verbatim>\<open>bn.toArrayLike(Buffer, 'le', len)\<close> asserts \<^verbatim>\<open>byteLength <= len\<close>, which for a
  non-negative value \<open>n\<close> is \<open>n < 256 ^ len\<close>, and pads with zero bytes.
\<close>

definition BN_toArrayLike_le :: "nat \<Rightarrow> nat \<Rightarrow> js_error + byte list" where
  "BN_toArrayLike_le len n =
     (if n < 256 ^ len then Inr (toArrayLE len n) else Inl BN_ByteArrayTooLong)"

text \<open>Reading a byte string as a little-endian unsigned integer (the decoder's view).\<close>

fun fromLE :: "byte list \<Rightarrow> nat" where
  "fromLE [] = 0"
| "fromLE (b # bs) = unat b + 256 * fromLE bs"

definition u64ToLeBytes :: "nat \<Rightarrow> js_error + byte list" where
  "u64ToLeBytes num =
     (case BN_of_number num of
        Inl e \<Rightarrow> Inl e
      | Inr bn \<Rightarrow> BN_toArrayLike_le 8 bn)"

subsection \<open>Address derivation and the two builders\<close>

text \<open>
  \<^verbatim>\<open>PublicKey.findProgramAddressSync(seeds, programId)\<close> belongs to web3.js; it is the
  parameter \<open>findPDA\<close>, from the seeds and the program id to the address and its bump.
\<close>

type_synonym finder = "byte list list \<Rightarrow> PublicKey \<Rightarrow> PublicKey \<times> byte"

text \<open>The address that \<^verbatim>\<open>createInitializeSplitInstruction\<close> binds to \<^verbatim>\<open>splitConfigPDA\<close>.\<close>

definition initialize_splitConfigPDA :: "finder \<Rightarrow> PublicKey \<Rightarrow> nat \<Rightarrow> js_error + PublicKey" where
  "initialize_splitConfigPDA findPDA sender nonce =
     (case u64ToLeBytes nonce of
        Inl e \<Rightarrow> Inl e
      | Inr nonceBuffer \<Rightarrow>
          Inr (fst (findPDA [Buffer_from_string ''split_config'', toBuffer sender, nonceBuffer]
                         PROGRAM_ID)))"

definition createInitializeSplitInstruction ::
  "finder \<Rightarrow> PublicKey \<Rightarrow> PublicKey \<Rightarrow> PublicKey \<Rightarrow> int \<Rightarrow> int \<Rightarrow> nat
     \<Rightarrow> js_error + TransactionInstruction" where
  "createInitializeSplitInstruction findPDA sender recipient1 recipient2
       recipient1Percentage recipient2Percentage nonce =
     (case u64ToLeBytes nonce of
        Inl e \<Rightarrow> Inl e
      | Inr nonceBuffer \<Rightarrow>
          (case initialize_splitConfigPDA findPDA sender nonce of
             Inl e \<Rightarrow> Inl e
           | Inr splitConfigPDA \<Rightarrow>
               Inr \<lparr> keys =
                       [\<lparr>pubkey = splitConfigPDA, isSigner = False, isWritable = True\<rparr>,
                        \<lparr>pubkey = sender, isSigner = True, isWritable = True\<rparr>,
                        \<lparr>pubkey = recipient1, isSigner = False, isWritable = False\<rparr>,
                        \<lparr>pubkey = recipient2, isSigner = False, isWritable = False\<rparr>,
                        \<lparr>pubkey = SystemProgram_programId, isSigner = False,
                          isWritable = False\<rparr>],
                     programId = PROGRAM_ID,
                     data = INITIALIZE_SPLIT @ Buffer_from [recipient1Percentage]
                              @ Buffer_from [recipient2Percentage] @ nonceBuffer \<rparr>))"

text \<open>The address that \<^verbatim>\<open>createExecuteSplitInstruction\<close> binds to \<^verbatim>\<open>splitConfigPDA\<close>.\<close>

definition execute_splitConfigPDA :: "finder \<Rightarrow> PublicKey \<Rightarrow> nat \<Rightarrow> js_error + PublicKey" where
  "execute_splitConfigPDA findPDA sender nonce =
     (case u64ToLeBytes nonce of
        Inl e \<Rightarrow> Inl e
      | Inr nonceBuffer \<Rightarrow>
          Inr (fst (findPDA [Buffer_from_string ''split_config'', toBuffer sender, nonceBuffer]
                         PROGRAM_ID)))"

text \<open>The amount is a \<^verbatim>\<open>BN\<close> already; it is written after the address is derived.\<close>

definition createExecuteSplitInstruction ::
  "finder \<Rightarrow> PublicKey \<Rightarrow> PublicKey \<Rightarrow> PublicKey \<Rightarrow> nat \<Rightarrow> nat
     \<Rightarrow> js_error + TransactionInstruction" where
  "createExecuteSplitInstruction findPDA sender recipient1 recipient2 amount nonce =
     (case execute_splitConfigPDA findPDA sender nonce of
        Inl e \<Rightarrow> Inl e
      | Inr splitConfigPDA \<Rightarrow>
          (case BN_toArrayLike_le 8 amount of
             Inl e \<Rightarrow> Inl e
           | Inr amountBuffer \<Rightarrow>
               Inr \<lparr> keys =
                       [\<lparr>pubkey = splitConfigPDA, isSigner = False, isWritable = True\<rparr>,
                        \<lparr>pubkey = sender, isSigner = True, isWritable = True\<rparr>,
                        \<lparr>pubkey = recipient1, isSigner = False, isWritable = True\<rparr>,
                        \<lparr>pubkey = recipient2, isSigner = False, isWritable = True\<rparr>,
                        \<lparr>pubkey = SystemProgram_programId, isSigner = False,
                          isWritable = False\<rparr>],
                     programId = PROGRAM_ID,
                     data = EXECUTE_SPLIT @ amountBuffer \<rparr>))"

text \<open>
  The helper of the test suite; \<^verbatim>\<open>program.programId\<close> comes from the Anchor workspace
  and is the parameter \<open>pid\<close>. It returns the address together with the bump.
\<close>

definition getSplitConfigPDA ::
  "finder \<Rightarrow> PublicKey \<Rightarrow> PublicKey \<Rightarrow> nat \<Rightarrow> js_error + PublicKey \<times> byte" where
  "getSplitConfigPDA findPDA pid senderKey nonceValue =
     (case BN_of_number nonceValue of
        Inl e \<Rightarrow> Inl e
      | Inr bn \<Rightarrow>
          (case BN_toArrayLike_le 8 bn of
             Inl e \<Rightarrow> Inl e
           | Inr nonceBuffer \<Rightarrow>
               Inr (findPDA [Buffer_from_string ''split_config'', toBuffer senderKey, nonceBuffer]
                         pid)))"

text \<open>Keys and a derivation function for evaluating the builders on concrete inputs.\<close>

definition key_of_byte :: "byte \<Rightarrow> PublicKey" where
  "key_of_byte b = PublicKey (replicate 32 b)"

definition seeds_find :: finder where
  "seeds_find seeds pid = (PublicKey (concat seeds @ toBuffer pid), 255)"

section \<open>The on-ledger program\<close>

text \<open>
  The program that keeps the split records (\<^verbatim>\<open>programs/solsplit/src/lib.rs\<close>) is not
  among the sources; its tests, its client and two snippets quoted in the README are. The
  snippets are embedded as they are written. The operations are modelled from the
  specification: an operation runs its checks in the order in which the specification
  lists the preconditions of that operation and aborts at the first check that fails.
\<close>

type_synonym u8 = "8 word"
type_synonym u64 = "64 word"
type_synonym u128 = "128 word"

subsection \<open>The split arithmetic (README, Safe Arithmetic)\<close>

text \<open>
  Rust's \<^verbatim>\<open>checked_mul\<close> and \<^verbatim>\<open>checked_div\<close> on \<^verbatim>\<open>u128\<close>, and \<^verbatim>\<open>checked_sub\<close> on
  \<^verbatim>\<open>u64\<close>: \<open>None\<close> on overflow, on division by zero, on underflow.
\<close>

definition checked_mul_u128 :: "u128 \<Rightarrow> u128 \<Rightarrow> u128 option" where
  "checked_mul_u128 a b = (if unat a * unat b < 2 ^ 128 then Some (a * b) else None)"

definition checked_div_u128 :: "u128 \<Rightarrow> u128 \<Rightarrow> u128 option" where
  "checked_div_u128 a b = (if b = 0 then None else Some (a div b))"

definition checked_sub_u64 :: "u64 \<Rightarrow> u64 \<Rightarrow> u64 option" where
  "checked_sub_u64 a b = (if unat b \<le> unat a then Some (a - b) else None)"

text \<open>
  The README's snippet,
  \<^verbatim>\<open>(amount as u128).checked_mul(split_config.recipient1_percentage as u128).unwrap()\<close>
  \<^verbatim>\<open>.checked_div(100).unwrap() as u64\<close>; \<open>None\<close> is the panic of an \<^verbatim>\<open>unwrap\<close>.
\<close>

definition amount1_of :: "u64 \<Rightarrow> u8 \<Rightarrow> u64 option" where
  "amount1_of amount recipient1_percentage =
     (case checked_mul_u128 (ucast amount) (ucast recipient1_percentage) of
        None \<Rightarrow> None
      | Some p \<Rightarrow>
          (case checked_div_u128 p 100 of
             None \<Rightarrow> None
           | Some q \<Rightarrow> Some (ucast q)))"

subsection \<open>Records and the ledger\<close>

text \<open>
  Modelled from the spec: the errors of section 7 (the program's error type is missing;
  the README's table has six of the names), and after them the failures of the host's
  primitives: of a transfer, of an allocation, of naming an address that holds no record.
\<close>

datatype SplitError =
    InvalidPercentages | ZeroPercentage | DuplicateRecipient | InvalidRecipient
  | AlreadyExecuted | NotExecuted | UnauthorizedSender | AmountTooSmall | ArithmeticOverflow
  | InsufficientBalance    \<comment> \<open>from the transfer primitive\<close>
  | AllocationFailed       \<comment> \<open>from the allocator: the address is occupied\<close>
  | NoSuchRecord           \<comment> \<open>no record at the named address\<close>

text \<open>
  Modelled from the spec: the persistent record of section 3 (the program's account
  struct is missing). The two recipients carry the suffix \<open>_id\<close>, which keeps them apart
  from the fields of the form.
\<close>

record SplitRecord =
  owner :: PublicKey
  recipient1_id :: PublicKey
  recipient2_id :: PublicKey
  share1 :: u8
  share2 :: u8
  executed :: bool
  sequence :: u64
  createdAt :: int
  executedAt :: int
  addressSalt :: u8

text \<open>
  Modelled from the spec: the state that the operations act on (the host ledger is
  missing): the records at their addresses, the storage deposit held for an allocated
  address, and the balances.
\<close>

record Ledger =
  records :: "PublicKey \<rightharpoonup> SplitRecord"
  deposits :: "PublicKey \<Rightarrow> int"
  balances :: "PublicKey \<Rightarrow> int"

text \<open>
  Modelled from the spec: what the host supplies to an operation (section 6, missing):
  the address derivation, the clock, and the storage deposit that an allocation takes.
\<close>

record Host =
  derive :: finder
  now :: int
  storage_deposit :: int

text \<open>
  Modelled from the spec: section 4.1 (the program's address derivation is missing):
  the address and its salt, from the tag, the owner and the sequence number as eight
  little-endian bytes.
\<close>

definition record_address :: "Host \<Rightarrow> PublicKey \<Rightarrow> u64 \<Rightarrow> PublicKey \<times> u8" where
  "record_address h own seq =
     derive h [Buffer_from_string ''split_config'', toBuffer own, toArrayLE 8 (unat seq)]
       PROGRAM_ID"

text \<open>
  Modelled from the spec: the transfer primitive of section 6 (missing),
  \<^verbatim>\<open>transfer(from, to, amount) -> success|insufficientBalance\<close>.
\<close>

definition transfer :: "PublicKey \<Rightarrow> PublicKey \<Rightarrow> int \<Rightarrow> Ledger \<Rightarrow> SplitError + Ledger" where
  "transfer src dst amt L =
     (if balances L src < amt then Inl InsufficientBalance
      else
        let debited = (balances L)(src := balances L src - amt)
        in Inr (L\<lparr>balances := debited(dst := debited dst + amt)\<rparr>))"

text \<open>
  Modelled from the spec: \<^verbatim>\<open>allocate(address, size, payer)\<close> of section 6 (missing).
  Allocation fails on an occupied address (section 4.2, idempotency) and takes the storage
  deposit from the payer. The spec names no other failure of an allocation, so the deposit
  is taken whatever the payer's balance is.
\<close>

definition allocate :: "Host \<Rightarrow> PublicKey \<Rightarrow> PublicKey \<Rightarrow> SplitRecord \<Rightarrow> Ledger \<Rightarrow> SplitError + Ledger" where
  "allocate h addr payer r L =
     (if records L addr \<noteq> None then Inl AllocationFailed
      else Inr (L\<lparr> records := (records L)(addr \<mapsto> r),
                   deposits := (deposits L)(addr := storage_deposit h),
                   balances := (balances L)(payer := balances L payer - storage_deposit h) \<rparr>))"

text \<open>
  Modelled from the spec: \<^verbatim>\<open>deallocate(address, payer)\<close> of section 6 (missing): the
  record is destroyed and the deposit held for its address goes to the payer.
\<close>

definition deallocate :: "PublicKey \<Rightarrow> PublicKey \<Rightarrow> Ledger \<Rightarrow> Ledger" where
  "deallocate addr payer L =
     L\<lparr> records := (records L)(addr := None),
        deposits := (deposits L)(addr := 0),
        balances := (balances L)(payer := balances L payer + deposits L addr) \<rparr>"

text \<open>
  Modelled from the spec: the reserved/system identity of section 4.2 (the program's
  check is missing); the tests use the system program's id.
\<close>

definition reserved :: "PublicKey \<Rightarrow> bool" where
  "reserved k = (k = SystemProgram_programId)"

text \<open>
  Modelled from the spec: the minimum transfer threshold of section 4.3 (the program's
  constant is missing), observed value 1000; the tests reject 500 and accept 1000.
\<close>

definition minimumTransferThreshold :: u64 where
  "minimumTransferThreshold = 1000"

subsection \<open>The four operations\<close>

text \<open>
  Modelled from the spec: Initialize, section 4.2 (the program's handler is missing).
  The owner signs; the checks run in the order of the listed preconditions, the last one
  at allocation time; the record goes to the address derived from the owner and the
  sequence number.
\<close>

definition initialize ::
  "Host \<Rightarrow> PublicKey \<Rightarrow> u8 \<Rightarrow> u8 \<Rightarrow> u64 \<Rightarrow> PublicKey \<Rightarrow> PublicKey \<Rightarrow> Ledger
     \<Rightarrow> SplitError + Ledger" where
  "initialize h own s1 s2 seq r1 r2 L =
     (if unat s1 + unat s2 \<noteq> 100 then Inl InvalidPercentages
      else if s1 = 0 \<or> s2 = 0 then Inl ZeroPercentage
      else if r1 = r2 then Inl DuplicateRecipient
      else if reserved r1 \<or> reserved r2 then Inl InvalidRecipient
      else
        (case record_address h own seq of
           (addr, salt) \<Rightarrow>
             allocate h addr own
               \<lparr> owner = own, recipient1_id = r1, recipient2_id = r2,
                 share1 = s1, share2 = s2, executed = False, sequence = seq,
                 createdAt = now h, executedAt = 0, addressSalt = salt \<rparr> L))"

text \<open>
  Modelled from the spec: Execute, section 4.3 (the program's handler is missing). The
  checks run in the order of the listed preconditions: the record exists and is not
  executed (the README's replay guard,
  \<^verbatim>\<open>require!(!split_config.executed, SplitError::AlreadyExecuted)\<close>, before the
  transfers), the caller is the owner, the recipients are the stored ones, the amount
  reaches the threshold. Then \<open>amount1\<close> by the README's arithmetic,
  \<open>amount2 = amount - amount1\<close>, the two transfers, and the flag with its time stamp.
\<close>

definition execute ::
  "Host \<Rightarrow> PublicKey \<Rightarrow> PublicKey \<Rightarrow> PublicKey \<Rightarrow> PublicKey \<Rightarrow> u64 \<Rightarrow> Ledger
     \<Rightarrow> SplitError + Ledger" where
  "execute h caller addr r1 r2 amount L =
     (case records L addr of
        None \<Rightarrow> Inl NoSuchRecord
      | Some r \<Rightarrow>
          if executed r then Inl AlreadyExecuted
          else if caller \<noteq> owner r then Inl UnauthorizedSender
          else if r1 \<noteq> recipient1_id r \<or> r2 \<noteq> recipient2_id r then Inl InvalidRecipient
          else if amount < minimumTransferThreshold then Inl AmountTooSmall
          else
            (case amount1_of amount (share1 r) of
               None \<Rightarrow> Inl ArithmeticOverflow
             | Some amount1 \<Rightarrow>
                 (case checked_sub_u64 amount amount1 of
                    None \<Rightarrow> Inl ArithmeticOverflow
                  | Some amount2 \<Rightarrow>
                      (case transfer (owner r) r1 (uint amount1) L of
                         Inl e \<Rightarrow> Inl e
                       | Inr L1 \<Rightarrow>
                           (case transfer (owner r) r2 (uint amount2) L1 of
                              Inl e \<Rightarrow> Inl e
                            | Inr L2 \<Rightarrow>
                                Inr (L2\<lparr>records := (records L2)
                                         (addr \<mapsto> r\<lparr>executed := True,
                                                      executedAt := now h\<rparr>)\<rparr>))))))"

text \<open>
  Modelled from the spec: Cancel, section 4.4 (the program's handler is missing), the
  checks in the order of the listed preconditions: the record exists, the caller is the
  owner, the record is not executed.
\<close>

definition cancel :: "PublicKey \<Rightarrow> PublicKey \<Rightarrow> Ledger \<Rightarrow> SplitError + Ledger" where
  "cancel caller addr L =
     (case records L addr of
        None \<Rightarrow> Inl NoSuchRecord
      | Some r \<Rightarrow>
          if caller \<noteq> owner r then Inl UnauthorizedSender
          else if executed r then Inl AlreadyExecuted
          else Inr (deallocate addr (owner r) L))"

text \<open>
  Modelled from the spec: Close, section 4.5 (the program's handler is missing), the
  checks in the order of the listed preconditions: the record exists, the caller is the
  owner, the record is executed.
\<close>

definition close :: "PublicKey \<Rightarrow> PublicKey \<Rightarrow> Ledger \<Rightarrow> SplitError + Ledger" where
  "close caller addr L =
     (case records L addr of
        None \<Rightarrow> Inl NoSuchRecord
      | Some r \<Rightarrow>
          if caller \<noteq> owner r then Inl UnauthorizedSender
          else if \<not> executed r then Inl NotExecuted
          else Inr (deallocate addr (owner r) L))"

text \<open>
  Modelled from the spec: the closed, tagged set of the four operations (section 9; the
  program's dispatch is missing), each with its caller and its inputs.
\<close>

datatype operation =
    Initialize PublicKey u8 u8 u64 PublicKey PublicKey
  | Execute PublicKey PublicKey PublicKey PublicKey u64
  | Cancel PublicKey PublicKey
  | Close PublicKey PublicKey

text \<open>Modelled from the spec: the dispatch on the operation (section 9, missing).\<close>

fun perform :: "Host \<Rightarrow> operation \<Rightarrow> Ledger \<Rightarrow> SplitError + Ledger" where
  "perform h (Initialize own s1 s2 seq r1 r2) L = initialize h own s1 s2 seq r1 r2 L"
| "perform h (Execute caller addr r1 r2 amount) L = execute h caller addr r1 r2 amount L"
| "perform h (Cancel caller addr) L = cancel caller addr L"
| "perform h (Close caller addr) L = close caller addr L"

text \<open>
  Modelled from the spec: the host's atomicity (sections 7 and 9, missing): a failed
  operation is reported to the caller and leaves the ledger as it was.
\<close>

definition submit :: "Host \<Rightarrow> operation \<Rightarrow> Ledger \<Rightarrow> SplitError option \<times> Ledger" where
  "submit h op L = (case perform h op L of Inl e \<Rightarrow> (Some e, L) | Inr L' \<Rightarrow> (None, L'))"

text \<open>
  Modelled from the spec: the host applies the operations submitted to it one after the
  other (section 5, missing), each with the host data of its own moment.
\<close>

fun submit_all :: "(Host \<times> operation) list \<Rightarrow> Ledger \<Rightarrow> Ledger" where
  "submit_all [] L = L"
| "submit_all ((h, op) # ops) L = submit_all ops (snd (submit h op L))"

text \<open>A host, a record and two ledgers for evaluating the operations on concrete inputs.\<close>

definition example_host :: Host where
  "example_host = \<lparr> derive = seeds_find, now = 1700000000, storage_deposit = 1809600 \<rparr>"

definition example_address :: PublicKey where
  "example_address = fst (record_address example_host (key_of_byte 1) 7)"

definition example_record :: SplitRecord where
  "example_record =
     \<lparr> owner = key_of_byte 1, recipient1_id = key_of_byte 2, recipient2_id = key_of_byte 3,
       share1 = 33, share2 = 67, executed = False, sequence = 7,
       createdAt = 1700000000, executedAt = 0, addressSalt = 255 \<rparr>"

definition empty_ledger :: Ledger where
  "empty_ledger =
     \<lparr> records = Map.empty, deposits = (\<lambda>k. 0),
       balances = (\<lambda>k. if k = key_of_byte 1 then 5000000000 else 0) \<rparr>"

definition created_ledger :: Ledger where
  "created_ledger =
     \<lparr> records = [example_address \<mapsto> example_record],
       deposits = (\<lambda>k. if k = example_address then 1809600 else 0),
       balances = (\<lambda>k. if k = key_of_byte 1 then 4998190400 else 0) \<rparr>"

definition executed_ledger :: Ledger where
  "executed_ledger =
     \<lparr> records = [example_address \<mapsto> example_record\<lparr>executed := True, executedAt := 1700000100\<rparr>],
       deposits = (\<lambda>k. if k = example_address then 1809600 else 0),
       balances = (\<lambda>k. if k = key_of_byte 1 then 4998189400
                        else if k = key_of_byte 2 then 330
                        else if k = key_of_byte 3 then 670 else 0) \<rparr>"

definition example_retries :: "(Host \<times> operation) list" where
  "example_retries =
     [(example_host, Execute (key_of_byte 1) example_address (key_of_byte 2) (key_of_byte 3)
                       500000000),
      (example_host, Cancel (key_of_byte 1) example_address)]"

section \<open>The split form of the web client\<close>

text \<open>
  The React component \<^verbatim>\<open>SplitInterface\<close>: its state variables, its event handlers and
  the conditions under which its controls can fire. What the component reads from its
  surroundings is explicit: the connected wallet and the fate of a transaction come with
  the event, and the library functions it calls are the fields of \<open>platform\<close>.
\<close>

datatype step = Step_config | Step_execute

record ui_state =
  recipient1 :: string
  recipient2 :: string
  percentage1 :: int
  percentage2 :: int
  amount :: string
  nonce :: nat
  activeNonce :: nat
  loading :: bool
  step :: step

text \<open>The state after mounting: the defaults, with the random start values as parameters.\<close>

definition initial_state :: "nat \<Rightarrow> nat \<Rightarrow> ui_state" where
  "initial_state n0 a0 =
     \<lparr> recipient1 = '''', recipient2 = '''', percentage1 = 60, percentage2 = 40,
       amount = ''0.1'', nonce = n0, activeNonce = a0, loading = False, step = Step_config \<rparr>"

text \<open>The wallet adapter as the handlers look at it.\<close>

record wallet =
  publicKey :: "PublicKey option"
  sendTransaction :: bool
  signTransaction :: bool

text \<open>
  How far a built transaction gets: not sent (fetching the block hash, the simulation,
  signing or sending threw), sent but not confirmed, or confirmed.
\<close>

datatype outcome = NotSent | Dropped | Confirmed

text \<open>
  Library functions: \<^verbatim>\<open>findProgramAddressSync\<close>, \<^verbatim>\<open>new PublicKey(string)\<close> (\<open>None\<close>
  when it throws), and the floating-point conversion
  \<^verbatim>\<open>new BN(parseFloat(amount) * LAMPORTS_PER_SOL)\<close>.
\<close>

record platform =
  findProgramAddressSync :: finder
  newPublicKey :: "string \<Rightarrow> PublicKey option"
  amountLamports :: "string \<Rightarrow> js_error + nat"

text \<open>
  A transaction that left the client: the sender and the nonce that the handler passed to
  the builder, the instruction, and whether the transaction was confirmed.
\<close>

datatype submitted =
    Initialize_tx PublicKey nat TransactionInstruction bool
  | Execute_tx PublicKey nat TransactionInstruction bool

text \<open>\<^verbatim>\<open>String.prototype.trim\<close>, on ASCII white space.\<close>

definition is_space :: "char \<Rightarrow> bool" where
  "is_space c = (c \<in> set [CHR '' '', CHR 0x09, CHR 0x0A, CHR 0x0B, CHR 0x0C, CHR 0x0D])"

definition trim :: "string \<Rightarrow> string" where
  "trim s = rev (dropWhile is_space (rev (dropWhile is_space s)))"

text \<open>
  The handlers. Each builds its instruction before its first \<^verbatim>\<open>await\<close>, from the state
  and the wallet at the click, and while it waits the buttons are disabled; so a handler
  is one step, with the fate of its transaction as the input \<open>out\<close>. It returns the new
  state and the transaction it sent, if it sent one.
\<close>

definition initializeSplit ::
  "platform \<Rightarrow> wallet \<Rightarrow> outcome \<Rightarrow> ui_state \<Rightarrow> ui_state \<times> submitted list" where
  "initializeSplit P w out st =
     (case publicKey w of
        None \<Rightarrow> (st, [])
      | Some walletKey \<Rightarrow>
          if \<not> sendTransaction w then (st, [])
          else
            let currentNonce = nonce st;
                st1 = st\<lparr>loading := True, activeNonce := currentNonce\<rparr>;
                failed = st1\<lparr>loading := False\<rparr>
            in (case newPublicKey P (trim (recipient1 st)) of
                  None \<Rightarrow> (failed, [])
                | Some recipient1Pubkey \<Rightarrow>
                    (case newPublicKey P (trim (recipient2 st)) of
                       None \<Rightarrow> (failed, [])
                     | Some recipient2Pubkey \<Rightarrow>
                         (case createInitializeSplitInstruction (findProgramAddressSync P)
                                 walletKey recipient1Pubkey recipient2Pubkey
                                 (percentage1 st) (percentage2 st) currentNonce of
                            Inl e \<Rightarrow> (failed, [])
                          | Inr instruction \<Rightarrow>
                              (case out of
                                 NotSent \<Rightarrow> (failed, [])
                               | Dropped \<Rightarrow> (failed, [Initialize_tx walletKey currentNonce instruction False])
                               | Confirmed \<Rightarrow>
                                   (st1\<lparr>step := Step_execute, nonce := nonce st + 1,
                                        loading := False\<rparr>,
                                    [Initialize_tx walletKey currentNonce instruction True]))))))"

definition executeSplit ::
  "platform \<Rightarrow> wallet \<Rightarrow> outcome \<Rightarrow> ui_state \<Rightarrow> ui_state \<times> submitted list" where
  "executeSplit P w out st =
     (case publicKey w of
        None \<Rightarrow> (st, [])
      | Some walletKey \<Rightarrow>
          if \<not> signTransaction w then (st, [])
          else
            let done = st\<lparr>loading := False\<rparr>
            in (case newPublicKey P (trim (recipient1 st)) of
                  None \<Rightarrow> (done, [])
                | Some recipient1Pubkey \<Rightarrow>
                    (case newPublicKey P (trim (recipient2 st)) of
                       None \<Rightarrow> (done, [])
                     | Some recipient2Pubkey \<Rightarrow>
                         (case amountLamports P (amount st) of
                            Inl e \<Rightarrow> (done, [])
                          | Inr lamports \<Rightarrow>
                              (case createExecuteSplitInstruction (findProgramAddressSync P)
                                      walletKey recipient1Pubkey recipient2Pubkey
                                      lamports (activeNonce st) of
                                 Inl e \<Rightarrow> (done, [])
                               | Inr instruction \<Rightarrow>
                                   (case out of
                                      NotSent \<Rightarrow> (done, [])
                                    | Dropped \<Rightarrow>
                                        (done, [Execute_tx walletKey (activeNonce st)
                                                  instruction False])
                                    | Confirmed \<Rightarrow>
                                        (done, [Execute_tx walletKey (activeNonce st)
                                                  instruction True])))))))"

definition resetForm :: "ui_state \<Rightarrow> ui_state" where
  "resetForm st =
     st\<lparr> recipient1 := '''', recipient2 := '''', percentage1 := 60, percentage2 := 40,
         amount := ''0.1'', nonce := nonce st + 1, step := Step_config \<rparr>"

text \<open>The slider's \<^verbatim>\<open>onChange\<close>, with \<open>val\<close> the parsed value of the range input.\<close>

definition slider_onChange :: "int \<Rightarrow> ui_state \<Rightarrow> ui_state" where
  "slider_onChange val st = st\<lparr>percentage1 := val, percentage2 := 100 - val\<rparr>"

datatype event =
    Click_initializeSplit wallet outcome
  | Click_executeSplit wallet outcome
  | Click_resetForm
  | Slider_onChange int
  | Recipient1_onChange string
  | Recipient2_onChange string
  | Amount_onChange string

text \<open>
  When a control can fire. The range input has \<^verbatim>\<open>min="1" max="99"\<close>; the Initialize
  button is rendered in step \<^verbatim>\<open>config\<close> and disabled by
  \<^verbatim>\<open>loading || !wallet.publicKey || percentage1 + percentage2 !== 100\<close>; the Execute and
  the reset button are rendered in step \<^verbatim>\<open>execute\<close>, disabled by
  \<^verbatim>\<open>loading || !wallet.publicKey\<close> and by \<^verbatim>\<open>loading\<close>.
\<close>

fun enabled :: "event \<Rightarrow> ui_state \<Rightarrow> bool" where
  "enabled (Click_initializeSplit w out) st =
     (step st = Step_config \<and> \<not> loading st \<and> publicKey w \<noteq> None
      \<and> percentage1 st + percentage2 st = 100)"
| "enabled (Click_executeSplit w out) st =
     (step st = Step_execute \<and> \<not> loading st \<and> publicKey w \<noteq> None)"
| "enabled Click_resetForm st = (step st = Step_execute \<and> \<not> loading st)"
| "enabled (Slider_onChange val) st = (1 \<le> val \<and> val \<le> 99)"
| "enabled (Recipient1_onChange v) st = True"
| "enabled (Recipient2_onChange v) st = True"
| "enabled (Amount_onChange v) st = True"

fun handle :: "platform \<Rightarrow> event \<Rightarrow> ui_state \<Rightarrow> ui_state \<times> submitted list" where
  "handle P (Click_initializeSplit w out) st = initializeSplit P w out st"
| "handle P (Click_executeSplit w out) st = executeSplit P w out st"
| "handle P Click_resetForm st = (resetForm st, [])"
| "handle P (Slider_onChange val) st = (slider_onChange val st, [])"
| "handle P (Recipient1_onChange v) st = (st\<lparr>recipient1 := trim v\<rparr>, [])"
| "handle P (Recipient2_onChange v) st = (st\<lparr>recipient2 := trim v\<rparr>, [])"
| "handle P (Amount_onChange v) st = (st\<lparr>amount := v\<rparr>, [])"

text \<open>
  A session is a list of events, each enabled when it fires. \<open>session\<close> runs it and
  returns the final state with the transactions that left the client, latest first;
  \<open>None\<close> when an event is not enabled in the state it meets.
\<close>

fun session :: "platform \<Rightarrow> ui_state \<Rightarrow> submitted list \<Rightarrow> event list
                  \<Rightarrow> (ui_state \<times> submitted list) option" where
  "session P st log [] = Some (st, log)"
| "session P st log (e # es) =
     (if enabled e st
      then (case handle P e st of (st', out) \<Rightarrow> session P st' (out @ log) es)
      else None)"

text \<open>The latest Initialize transaction of a log, if any.\<close>

fun last_initialize ::
  "submitted list \<Rightarrow> (PublicKey \<times> nat \<times> TransactionInstruction \<times> bool) option" where
  "last_initialize [] = None"
| "last_initialize (Initialize_tx s n i c # log) = Some (s, n, i, c)"
| "last_initialize (Execute_tx s n e c # log) = last_initialize log"

text \<open>Predicates for the invariants of a session.\<close>

fun derived_address :: "finder \<Rightarrow> submitted \<Rightarrow> bool" where
  "derived_address f (Initialize_tx s n i c) =
     (initialize_splitConfigPDA f s n = Inr (pubkey (keys i ! 0)))"
| "derived_address f (Execute_tx s n e c) =
     (execute_splitConfigPDA f s n = Inr (pubkey (keys e ! 0)))"

definition follows_confirmed :: "nat \<Rightarrow> nat \<Rightarrow> submitted list \<Rightarrow> bool" where
  "follows_confirmed n m log =
     (case last_initialize log of
        None \<Rightarrow> False
      | Some (s, k, i, c) \<Rightarrow> c \<and> k = n \<and> n < m)"

fun executes_follow :: "nat \<Rightarrow> submitted list \<Rightarrow> bool" where
  "executes_follow m [] = True"
| "executes_follow m (Initialize_tx s n i c # log) = executes_follow m log"
| "executes_follow m (Execute_tx s n e c # log) =
     (follows_confirmed n m log \<and> executes_follow m log)"

definition nonce_inv :: "finder \<Rightarrow> ui_state \<Rightarrow> submitted list \<Rightarrow> bool" where
  "nonce_inv f st log =
     (list_all (derived_address f) log \<and> executes_follow (nonce st) log
      \<and> (step st = Step_execute \<longrightarrow> follows_confirmed (activeNonce st) (nonce st) log))"

definition share_inv :: "ui_state \<Rightarrow> bool" where
  "share_inv st = (1 \<le> percentage1 st \<and> percentage1 st \<le> 99
                    \<and> percentage2 st = 100 - percentage1 st)"

text \<open>The two share bytes of an Initialize instruction are positive and sum to 100.\<close>

fun valid_shares :: "submitted \<Rightarrow> bool" where
  "valid_shares (Initialize_tx s n i c) =
     (length (data i) = 18 \<and> 0 < uint (data i ! 8) \<and> 0 < uint (data i ! 9)
      \<and> uint (data i ! 8) + uint (data i ! 9) = 100)"
| "valid_shares (Execute_tx s n e c) = True"

text \<open>The sender, the nonce and the record address (first account) of a transaction.\<close>

fun target :: "submitted \<Rightarrow> PublicKey \<times> nat \<times> PublicKey" where
  "target (Initialize_tx s n i c) = (s, n, pubkey (keys i ! 0))"
| "target (Execute_tx s n e c) = (s, n, pubkey (keys e ! 0))"

text \<open>A platform, wallets and sessions for evaluating the handlers on concrete inputs.\<close>

definition example_platform :: platform where
  "example_platform =
     \<lparr> findProgramAddressSync = seeds_find,
       newPublicKey = (\<lambda>s. if length s = 32 then Some (PublicKey (Buffer_from_string s)) else None),
       amountLamports = (\<lambda>s. Inr 100000000) \<rparr>"

definition example_wallet :: "byte \<Rightarrow> wallet" where
  "example_wallet b =
     \<lparr> publicKey = Some (key_of_byte b), sendTransaction = True, signTransaction = True \<rparr>"

definition example_session :: "event list" where
  "example_session =
     [Recipient1_onChange ''BBBBBBBBBBBBBBBBBBBBBBBBBBBBBBBB'',
      Recipient2_onChange ''CCCCCCCCCCCCCCCCCCCCCCCCCCCCCCCC'',
      Slider_onChange 33,
      Click_initializeSplit (example_wallet 1) Confirmed,
      Click_executeSplit (example_wallet 1) Confirmed]"

definition wallet_switch_session :: "event list" where
  "wallet_switch_session =
     [Recipient1_onChange ''BBBBBBBBBBBBBBBBBBBBBBBBBBBBBBBB'',
      Recipient2_onChange ''CCCCCCCCCCCCCCCCCCCCCCCCCCCCCCCC'',
      Click_initializeSplit (example_wallet 1) Confirmed,
      Click_executeSplit (example_wallet 9) Confirmed]"

section \<open>Properties of the builders\<close>

lemma length_toArrayLE: "length (toArrayLE k n) = k"
  by (induction k arbitrary: n) auto

lemma fromLE_toArrayLE: "n < 256 ^ k \<Longrightarrow> fromLE (toArrayLE k n) = n"
proof (induction k arbitrary: n)
  case 0
  then show ?case by simp
next
  case (Suc k)
  have "n div 256 < 256 ^ k"
    using Suc.prems by (simp add: less_mult_imp_div_less mult.commute)
  then have "fromLE (toArrayLE k (n div 256)) = n div 256"
    by (rule Suc.IH)
  moreover have "unat (of_nat (n mod 256) :: byte) = n mod 256"
    by (simp add: unat_of_nat)
  ultimately show ?case by simp
qed

lemma u64ToLeBytes_small:
  "num < 2 ^ 53 \<Longrightarrow> u64ToLeBytes num = Inr (toArrayLE 8 num)"
proof -
  assume a: "num < 2 ^ 53"
  have "(2::nat) ^ 53 \<le> 256 ^ 8" by simp
  with a have "num < 256 ^ 8" by (rule less_le_trans)
  with a show ?thesis
    by (simp add: u64ToLeBytes_def BN_of_number_def BN_toArrayLike_le_def)
qed

lemma u64ToLeBytes_large:
  "2 ^ 53 \<le> num \<Longrightarrow> u64ToLeBytes num = Inl BN_AssertionFailed"
  by (simp add: u64ToLeBytes_def BN_of_number_def)

lemma toArrayLE_numeral:
  "toArrayLE (numeral k) n = of_nat (n mod 256) # toArrayLE (pred_numeral k) (n div 256)"
  using toArrayLE.simps(2)[of "pred_numeral k" n] by (simp only: numeral_eq_Suc[symmetric])

lemma initialize_at_7:
  "createInitializeSplitInstruction seeds_find (key_of_byte 1) (key_of_byte 2) (key_of_byte 3) 60 40 7
     = Inr \<lparr> keys =
               [\<lparr>pubkey = PublicKey (Buffer_from_string ''split_config'' @ replicate 32 1
                                      @ [7, 0, 0, 0, 0, 0, 0, 0] @ toBuffer PROGRAM_ID),
                 isSigner = False, isWritable = True\<rparr>,
                \<lparr>pubkey = key_of_byte 1, isSigner = True, isWritable = True\<rparr>,
                \<lparr>pubkey = key_of_byte 2, isSigner = False, isWritable = False\<rparr>,
                \<lparr>pubkey = key_of_byte 3, isSigner = False, isWritable = False\<rparr>,
                \<lparr>pubkey = SystemProgram_programId, isSigner = False, isWritable = False\<rparr>],
             programId = PROGRAM_ID,
             data = [53, 17, 92, 9, 84, 151, 173, 78, 60, 40, 7, 0, 0, 0, 0, 0, 0, 0] \<rparr>"
  by (simp add: createInitializeSplitInstruction_def initialize_splitConfigPDA_def
        u64ToLeBytes_small seeds_find_def key_of_byte_def INITIALIZE_SPLIT_def Buffer_from_def
        toArrayLE_numeral)

lemma execute_at_7:
  "createExecuteSplitInstruction seeds_find (key_of_byte 1) (key_of_byte 2) (key_of_byte 3) 1000 7
     = Inr \<lparr> keys =
               [\<lparr>pubkey = PublicKey (Buffer_from_string ''split_config'' @ replicate 32 1
                                      @ [7, 0, 0, 0, 0, 0, 0, 0] @ toBuffer PROGRAM_ID),
                 isSigner = False, isWritable = True\<rparr>,
                \<lparr>pubkey = key_of_byte 1, isSigner = True, isWritable = True\<rparr>,
                \<lparr>pubkey = key_of_byte 2, isSigner = False, isWritable = True\<rparr>,
                \<lparr>pubkey = key_of_byte 3, isSigner = False, isWritable = True\<rparr>,
                \<lparr>pubkey = SystemProgram_programId, isSigner = False, isWritable = False\<rparr>],
             programId = PROGRAM_ID,
             data = [6, 45, 171, 40, 49, 129, 23, 89, 232, 3, 0, 0, 0, 0, 0, 0] \<rparr>"
  by (simp add: createExecuteSplitInstruction_def execute_splitConfigPDA_def
        u64ToLeBytes_small seeds_find_def key_of_byte_def EXECUTE_SPLIT_def Buffer_from_def
        BN_toArrayLike_le_def toArrayLE_numeral)

subsection \<open>The record address\<close>

text \<open>
  C3. The record address is a function of the owner and the sequence number alone: the
  derivation inside \<^verbatim>\<open>createInitializeSplitInstruction\<close>, the one inside
  \<^verbatim>\<open>createExecuteSplitInstruction\<close> and the test helper \<^verbatim>\<open>getSplitConfigPDA\<close> (run
  for the configured program) give the same result for every owner and sequence number.
  Whenever the sequence number passes the number-to-\<^verbatim>\<open>BN\<close> conversion, the address is
  derived from the seeds \<^verbatim>\<open>"split_config"\<close>, the owner's key and an 8-byte buffer that
  reads back, little-endian, as the sequence number; and the first account of each built
  instruction is that address.
\<close>

theorem record_address_derivations_agree:
  "initialize_splitConfigPDA f own n = execute_splitConfigPDA f own n
   \<and> map_sum id fst (getSplitConfigPDA f PROGRAM_ID own n) = initialize_splitConfigPDA f own n
   \<and> (n < 2 ^ 53 \<longrightarrow>
        (\<exists>b. length b = 8 \<and> fromLE b = n \<and>
             initialize_splitConfigPDA f own n =
               Inr (fst (f [Buffer_from_string ''split_config'', toBuffer own, b] PROGRAM_ID))))
   \<and> (\<forall>i. createInitializeSplitInstruction f own r1 r2 p1 p2 n = Inr i
          \<longrightarrow> initialize_splitConfigPDA f own n = Inr (pubkey (keys i ! 0)))
   \<and> (\<forall>i. createExecuteSplitInstruction f own r1 r2 a n = Inr i
          \<longrightarrow> execute_splitConfigPDA f own n = Inr (pubkey (keys i ! 0)))"
proof (intro conjI allI impI)
  show "initialize_splitConfigPDA f own n = execute_splitConfigPDA f own n"
    by (simp add: initialize_splitConfigPDA_def execute_splitConfigPDA_def)
  show "map_sum id fst (getSplitConfigPDA f PROGRAM_ID own n) = initialize_splitConfigPDA f own n"
    by (simp add: getSplitConfigPDA_def initialize_splitConfigPDA_def u64ToLeBytes_def
          split: sum.splits)
next
  assume small: "n < 2 ^ 53"
  have "(2::nat) ^ 53 \<le> 256 ^ 8" by simp
  with small have "n < 256 ^ 8" by (rule less_le_trans)
  then have "fromLE (toArrayLE 8 n) = n" by (rule fromLE_toArrayLE)
  moreover have "length (toArrayLE 8 n) = 8" by (rule length_toArrayLE)
  moreover have "initialize_splitConfigPDA f own n =
      Inr (fst (f [Buffer_from_string ''split_config'', toBuffer own, toArrayLE 8 n] PROGRAM_ID))"
    using small by (simp add: initialize_splitConfigPDA_def u64ToLeBytes_small)
  ultimately show "\<exists>b. length b = 8 \<and> fromLE b = n \<and>
             initialize_splitConfigPDA f own n =
               Inr (fst (f [Buffer_from_string ''split_config'', toBuffer own, b] PROGRAM_ID))"
    by blast
next
  fix i
  assume "createInitializeSplitInstruction f own r1 r2 p1 p2 n = Inr i"
  then show "initialize_splitConfigPDA f own n = Inr (pubkey (keys i ! 0))"
    by (auto simp: createInitializeSplitInstruction_def split: sum.splits)
next
  fix i
  assume "createExecuteSplitInstruction f own r1 r2 a n = Inr i"
  then show "execute_splitConfigPDA f own n = Inr (pubkey (keys i ! 0))"
    by (auto simp: createExecuteSplitInstruction_def split: sum.splits)
qed

theorem record_address_derivations_agree_witness:
  "(7::nat) < 2 ^ 53
   \<and> (\<exists>i. createInitializeSplitInstruction seeds_find (key_of_byte 1) (key_of_byte 2)
             (key_of_byte 3) 60 40 7 = Inr i
          \<and> initialize_splitConfigPDA seeds_find (key_of_byte 1) 7 = Inr (pubkey (keys i ! 0)))
   \<and> (\<exists>i. createExecuteSplitInstruction seeds_find (key_of_byte 1) (key_of_byte 2)
             (key_of_byte 3) 1000 7 = Inr i
          \<and> execute_splitConfigPDA seeds_find (key_of_byte 1) 7 = Inr (pubkey (keys i ! 0)))
   \<and> (\<exists>b. length b = 8 \<and> fromLE b = 7 \<and>
          initialize_splitConfigPDA seeds_find (key_of_byte 1) 7 =
            Inr (fst (seeds_find [Buffer_from_string ''split_config'', toBuffer (key_of_byte 1), b]
                        PROGRAM_ID)))"
proof -
  have small: "(7::nat) < 2 ^ 53" by simp
  note inst = record_address_derivations_agree [of seeds_find "key_of_byte 1" 7
      "key_of_byte 2" "key_of_byte 3" 60 40 1000]
  from inst small have addr: "\<exists>b. length b = 8 \<and> fromLE b = 7 \<and>
          initialize_splitConfigPDA seeds_find (key_of_byte 1) 7 =
            Inr (fst (seeds_find [Buffer_from_string ''split_config'', toBuffer (key_of_byte 1), b]
                        PROGRAM_ID))"
    by blast
  from inst initialize_at_7 have i: "\<exists>i. createInitializeSplitInstruction seeds_find (key_of_byte 1)
             (key_of_byte 2) (key_of_byte 3) 60 40 7 = Inr i
          \<and> initialize_splitConfigPDA seeds_find (key_of_byte 1) 7 = Inr (pubkey (keys i ! 0))"
    by blast
  from inst execute_at_7 have e: "\<exists>i. createExecuteSplitInstruction seeds_find (key_of_byte 1)
             (key_of_byte 2) (key_of_byte 3) 1000 7 = Inr i
          \<and> execute_splitConfigPDA seeds_find (key_of_byte 1) 7 = Inr (pubkey (keys i ! 0))"
    by blast
  from small i e addr show ?thesis by blast
qed

subsection \<open>Instruction data\<close>

lemma length_INITIALIZE_SPLIT: "length INITIALIZE_SPLIT = 8"
  by (simp add: INITIALIZE_SPLIT_def Buffer_from_def)

lemma length_EXECUTE_SPLIT: "length EXECUTE_SPLIT = 8"
  by (simp add: EXECUTE_SPLIT_def Buffer_from_def)

lemma initialize_data:
  assumes "num < 2 ^ 53"
  shows "\<exists>i. createInitializeSplitInstruction f s r1 r2 p1 p2 num = Inr i
           \<and> data i = INITIALIZE_SPLIT @ [of_int p1, of_int p2] @ toArrayLE 8 num"
  using assms
  by (simp add: createInitializeSplitInstruction_def initialize_splitConfigPDA_def
        u64ToLeBytes_small Buffer_from_def)

lemma execute_data:
  assumes "num < 2 ^ 53" and "amt < 2 ^ 64"
  shows "\<exists>i. createExecuteSplitInstruction f s r1 r2 amt num = Inr i
           \<and> data i = EXECUTE_SPLIT @ toArrayLE 8 amt"
  using assms
  by (simp add: createExecuteSplitInstruction_def execute_splitConfigPDA_def
        u64ToLeBytes_small BN_toArrayLike_le_def)

text \<open>
  C4 (as the builders behave). For shares below 256 and a sequence number below \<open>2^53\<close>,
  the data of the Initialize instruction is exactly 18 bytes: the 8-byte tag, share1 as one
  byte, share2 as one byte, and the sequence number as 8 little-endian bytes. For an amt
  below \<open>2^64\<close> (and a sequence number below \<open>2^53\<close>, which the builder needs for the
  address), the data of the Execute instruction is exactly 16 bytes: the 8-byte tag and the
  amt as 8 little-endian bytes. A sequence number of \<open>2^53\<close> or more makes both builders
  throw, and an amt of \<open>2^64\<close> or more makes the Execute builder throw: no data is built.
\<close>

theorem instruction_data_layout:
  "(num < 2 ^ 53 \<and> 0 \<le> p1 \<and> p1 < 256 \<and> 0 \<le> p2 \<and> p2 < 256 \<longrightarrow>
      (\<exists>i. createInitializeSplitInstruction f s r1 r2 p1 p2 num = Inr i
           \<and> length (data i) = 18
           \<and> take 8 (data i) = INITIALIZE_SPLIT
           \<and> uint (data i ! 8) = p1
           \<and> uint (data i ! 9) = p2
           \<and> fromLE (drop 10 (data i)) = num))
   \<and> (num < 2 ^ 53 \<and> amt < 2 ^ 64 \<longrightarrow>
      (\<exists>i. createExecuteSplitInstruction f s r1 r2 amt num = Inr i
           \<and> length (data i) = 16
           \<and> take 8 (data i) = EXECUTE_SPLIT
           \<and> fromLE (drop 8 (data i)) = amt))
   \<and> (2 ^ 53 \<le> num \<longrightarrow>
        createInitializeSplitInstruction f s r1 r2 p1 p2 num = Inl BN_AssertionFailed
      \<and> createExecuteSplitInstruction f s r1 r2 amt num = Inl BN_AssertionFailed)
   \<and> (num < 2 ^ 53 \<and> 2 ^ 64 \<le> amt \<longrightarrow>
        createExecuteSplitInstruction f s r1 r2 amt num = Inl BN_ByteArrayTooLong)
   \<and> length INITIALIZE_SPLIT = 8 \<and> length EXECUTE_SPLIT = 8"
proof (intro conjI impI)
  assume a: "num < 2 ^ 53 \<and> 0 \<le> p1 \<and> p1 < 256 \<and> 0 \<le> p2 \<and> p2 < 256"
  then obtain i where i: "createInitializeSplitInstruction f s r1 r2 p1 p2 num = Inr i"
    and d: "data i = INITIALIZE_SPLIT @ [of_int p1, of_int p2] @ toArrayLE 8 num"
    using initialize_data by blast
  have "(2::nat) ^ 53 \<le> 256 ^ 8" by simp
  with a have "num < 256 ^ 8" by (simp add: less_le_trans)
  then have r: "fromLE (toArrayLE 8 num) = num" by (rule fromLE_toArrayLE)
  have l: "length (data i) = 18"
    by (simp add: d length_INITIALIZE_SPLIT length_toArrayLE)
  have t: "take 8 (data i) = INITIALIZE_SPLIT"
    by (simp add: d length_INITIALIZE_SPLIT)
  have b8: "uint (data i ! 8) = p1"
    using a by (simp add: d nth_append length_INITIALIZE_SPLIT uint_word_of_int)
  have b9: "uint (data i ! 9) = p2"
    using a by (simp add: d nth_append length_INITIALIZE_SPLIT uint_word_of_int)
  have dr: "drop 10 (data i) = toArrayLE 8 num"
    by (simp add: d length_INITIALIZE_SPLIT)
  from i l t b8 b9 dr r
  show "\<exists>i. createInitializeSplitInstruction f s r1 r2 p1 p2 num = Inr i
           \<and> length (data i) = 18
           \<and> take 8 (data i) = INITIALIZE_SPLIT
           \<and> uint (data i ! 8) = p1
           \<and> uint (data i ! 9) = p2
           \<and> fromLE (drop 10 (data i)) = num"
    by auto
next
  assume a: "num < 2 ^ 53 \<and> amt < 2 ^ 64"
  then obtain i where i: "createExecuteSplitInstruction f s r1 r2 amt num = Inr i"
    and d: "data i = EXECUTE_SPLIT @ toArrayLE 8 amt"
    using execute_data by blast
  from a have "amt < 256 ^ 8" by simp
  then have r: "fromLE (toArrayLE 8 amt) = amt" by (rule fromLE_toArrayLE)
  have l: "length (data i) = 16"
    by (simp add: d length_EXECUTE_SPLIT length_toArrayLE)
  have t: "take 8 (data i) = EXECUTE_SPLIT"
    by (simp add: d length_EXECUTE_SPLIT)
  have dr: "drop 8 (data i) = toArrayLE 8 amt"
    by (simp add: d length_EXECUTE_SPLIT)
  from i l t dr r
  show "\<exists>i. createExecuteSplitInstruction f s r1 r2 amt num = Inr i
           \<and> length (data i) = 16
           \<and> take 8 (data i) = EXECUTE_SPLIT
           \<and> fromLE (drop 8 (data i)) = amt"
    by auto
next
  assume "2 ^ 53 \<le> num"
  then show "createInitializeSplitInstruction f s r1 r2 p1 p2 num = Inl BN_AssertionFailed"
    by (simp add: createInitializeSplitInstruction_def u64ToLeBytes_large)
next
  assume "2 ^ 53 \<le> num"
  then show "createExecuteSplitInstruction f s r1 r2 amt num = Inl BN_AssertionFailed"
    by (simp add: createExecuteSplitInstruction_def execute_splitConfigPDA_def u64ToLeBytes_large)
next
  assume "num < 2 ^ 53 \<and> 2 ^ 64 \<le> amt"
  then show "createExecuteSplitInstruction f s r1 r2 amt num = Inl BN_ByteArrayTooLong"
    by (simp add: createExecuteSplitInstruction_def execute_splitConfigPDA_def
          u64ToLeBytes_small BN_toArrayLike_le_def)
qed (rule length_INITIALIZE_SPLIT length_EXECUTE_SPLIT)+


theorem instruction_data_layout_witness:
  "((7::nat) < 2 ^ 53 \<and> (0::int) \<le> 60 \<and> (60::int) < 256 \<and> (0::int) \<le> 40 \<and> (40::int) < 256)
   \<and> (\<exists>i. createInitializeSplitInstruction seeds_find (key_of_byte 1) (key_of_byte 2)
             (key_of_byte 3) 60 40 7 = Inr i
          \<and> length (data i) = 18 \<and> take 8 (data i) = INITIALIZE_SPLIT
          \<and> uint (data i ! 8) = 60 \<and> uint (data i ! 9) = 40
          \<and> fromLE (drop 10 (data i)) = 7)
   \<and> ((7::nat) < 2 ^ 53 \<and> (1000::nat) < 2 ^ 64)
   \<and> (\<exists>i. createExecuteSplitInstruction seeds_find (key_of_byte 1) (key_of_byte 2)
             (key_of_byte 3) 1000 7 = Inr i
          \<and> length (data i) = 16 \<and> take 8 (data i) = EXECUTE_SPLIT
          \<and> fromLE (drop 8 (data i)) = 1000)
   \<and> (2::nat) ^ 53 \<le> 9007199254740992
   \<and> createInitializeSplitInstruction seeds_find (key_of_byte 1) (key_of_byte 2)
         (key_of_byte 3) 60 40 9007199254740992 = Inl BN_AssertionFailed
   \<and> createExecuteSplitInstruction seeds_find (key_of_byte 1) (key_of_byte 2)
         (key_of_byte 3) 1000 9007199254740992 = Inl BN_AssertionFailed
   \<and> ((7::nat) < 2 ^ 53 \<and> (2::nat) ^ 64 \<le> 18446744073709551616)
   \<and> createExecuteSplitInstruction seeds_find (key_of_byte 1) (key_of_byte 2)
         (key_of_byte 3) 18446744073709551616 7 = Inl BN_ByteArrayTooLong"
proof -
  have h1: "(7::nat) < 2 ^ 53 \<and> (0::int) \<le> 60 \<and> (60::int) < 256 \<and> (0::int) \<le> 40 \<and> (40::int) < 256"
    by simp
  have h2: "(7::nat) < 2 ^ 53 \<and> (1000::nat) < 2 ^ 64" by simp
  note inst = instruction_data_layout [of 7 60 40 seeds_find "key_of_byte 1" "key_of_byte 2"
      "key_of_byte 3" 1000]
  from inst h1 have a: "\<exists>i. createInitializeSplitInstruction seeds_find (key_of_byte 1)
             (key_of_byte 2) (key_of_byte 3) 60 40 7 = Inr i
          \<and> length (data i) = 18 \<and> take 8 (data i) = INITIALIZE_SPLIT
          \<and> uint (data i ! 8) = 60 \<and> uint (data i ! 9) = 40
          \<and> fromLE (drop 10 (data i)) = 7"
    by blast
  from inst h2 have b: "\<exists>i. createExecuteSplitInstruction seeds_find (key_of_byte 1)
             (key_of_byte 2) (key_of_byte 3) 1000 7 = Inr i
          \<and> length (data i) = 16 \<and> take 8 (data i) = EXECUTE_SPLIT
          \<and> fromLE (drop 8 (data i)) = 1000"
    by blast
  have h3: "(2::nat) ^ 53 \<le> 9007199254740992" by simp
  from instruction_data_layout [of 9007199254740992 60 40 seeds_find "key_of_byte 1"
      "key_of_byte 2" "key_of_byte 3" 1000] h3
  have c: "createInitializeSplitInstruction seeds_find (key_of_byte 1) (key_of_byte 2)
         (key_of_byte 3) 60 40 9007199254740992 = Inl BN_AssertionFailed
      \<and> createExecuteSplitInstruction seeds_find (key_of_byte 1) (key_of_byte 2)
         (key_of_byte 3) 1000 9007199254740992 = Inl BN_AssertionFailed"
    by blast
  have h4: "(7::nat) < 2 ^ 53 \<and> (2::nat) ^ 64 \<le> 18446744073709551616" by simp
  from instruction_data_layout [of 7 60 40 seeds_find "key_of_byte 1" "key_of_byte 2"
      "key_of_byte 3" 18446744073709551616] h4
  have d: "createExecuteSplitInstruction seeds_find (key_of_byte 1) (key_of_byte 2)
         (key_of_byte 3) 18446744073709551616 7 = Inl BN_ByteArrayTooLong"
    by blast
  from h1 h2 a b h3 c h4 d show ?thesis by blast
qed

text \<open>
  C4 as stated, for every input, fails: the sequence number \<open>2^53 = 9007199254740992\<close> is a
  JavaScript number and an unsigned 64-bit value, and the Initialize builder throws on it
  instead of serializing it.
\<close>

theorem initialize_data_counterexample:
  "createInitializeSplitInstruction seeds_find (key_of_byte 1) (key_of_byte 2) (key_of_byte 3)
       60 40 9007199254740992 = Inl BN_AssertionFailed"
  by (simp add: createInitializeSplitInstruction_def u64ToLeBytes_large)

subsection \<open>Accounts named by an instruction\<close>

text \<open>
  C5 (as the builders behave). Initialize and Execute name the same five accounts in the
  same order: the derived record address, the owner, recipient1, recipient2 and the system
  program. The owner alone signs; the record address and the owner are writable in both, and
  the two recipients are writable for Execute only.
\<close>

theorem instruction_accounts_order:
  "(createInitializeSplitInstruction f s r1 r2 p1 p2 n = Inr i \<longrightarrow>
      (\<exists>pda. initialize_splitConfigPDA f s n = Inr pda
         \<and> map pubkey (keys i) = [pda, s, r1, r2, SystemProgram_programId]
         \<and> map isSigner (keys i) = [False, True, False, False, False]
         \<and> map isWritable (keys i) = [True, True, False, False, False]))
   \<and> (createExecuteSplitInstruction f s r1 r2 a n = Inr j \<longrightarrow>
      (\<exists>pda. execute_splitConfigPDA f s n = Inr pda
         \<and> map pubkey (keys j) = [pda, s, r1, r2, SystemProgram_programId]
         \<and> map isSigner (keys j) = [False, True, False, False, False]
         \<and> map isWritable (keys j) = [True, True, True, True, False]))"
  by (auto simp: createInitializeSplitInstruction_def createExecuteSplitInstruction_def
        split: sum.splits)

theorem instruction_accounts_order_witness:
  "(\<exists>i. createInitializeSplitInstruction seeds_find (key_of_byte 1) (key_of_byte 2)
            (key_of_byte 3) 60 40 7 = Inr i
        \<and> (\<exists>pda. initialize_splitConfigPDA seeds_find (key_of_byte 1) 7 = Inr pda
              \<and> map pubkey (keys i) =
                  [pda, key_of_byte 1, key_of_byte 2, key_of_byte 3, SystemProgram_programId]))
   \<and> (\<exists>j. createExecuteSplitInstruction seeds_find (key_of_byte 1) (key_of_byte 2)
            (key_of_byte 3) 1000 7 = Inr j
        \<and> (\<exists>pda. execute_splitConfigPDA seeds_find (key_of_byte 1) 7 = Inr pda
              \<and> map pubkey (keys j) =
                  [pda, key_of_byte 1, key_of_byte 2, key_of_byte 3, SystemProgram_programId]))"
proof -
  obtain i where i: "createInitializeSplitInstruction seeds_find (key_of_byte 1) (key_of_byte 2)
            (key_of_byte 3) 60 40 7 = Inr i"
    using initialize_at_7 by blast
  obtain j where j: "createExecuteSplitInstruction seeds_find (key_of_byte 1) (key_of_byte 2)
            (key_of_byte 3) 1000 7 = Inr j"
    using execute_at_7 by blast
  note inst = instruction_accounts_order [of seeds_find "key_of_byte 1" "key_of_byte 2"
      "key_of_byte 3" 60 40 7 i 1000 j]
  from inst i have a: "\<exists>pda. initialize_splitConfigPDA seeds_find (key_of_byte 1) 7 = Inr pda
              \<and> map pubkey (keys i) =
                  [pda, key_of_byte 1, key_of_byte 2, key_of_byte 3, SystemProgram_programId]"
    by auto
  from inst j have b: "\<exists>pda. execute_splitConfigPDA seeds_find (key_of_byte 1) 7 = Inr pda
              \<and> map pubkey (keys j) =
                  [pda, key_of_byte 1, key_of_byte 2, key_of_byte 3, SystemProgram_programId]"
    by auto
  from i a j b show ?thesis by auto
qed

text \<open>
  C5 as stated fails: the Initialize instruction names recipient2 (fourth account), and the
  Execute instruction names the system program (fifth account).
\<close>

theorem accounts_order_counterexample:
  "map_sum id (\<lambda>i. map pubkey (keys i))
      (createInitializeSplitInstruction seeds_find (key_of_byte 1) (key_of_byte 2)
         (key_of_byte 3) 60 40 7)
     = Inr [PublicKey (Buffer_from_string ''split_config'' @ replicate 32 1
                         @ [7, 0, 0, 0, 0, 0, 0, 0] @ toBuffer PROGRAM_ID),
            key_of_byte 1, key_of_byte 2, key_of_byte 3, SystemProgram_programId]
   \<and> map_sum id (\<lambda>i. map pubkey (keys i))
      (createExecuteSplitInstruction seeds_find (key_of_byte 1) (key_of_byte 2)
         (key_of_byte 3) 1000 7)
     = Inr [PublicKey (Buffer_from_string ''split_config'' @ replicate 32 1
                         @ [7, 0, 0, 0, 0, 0, 0, 0] @ toBuffer PROGRAM_ID),
            key_of_byte 1, key_of_byte 2, key_of_byte 3, SystemProgram_programId]"
  by (simp add: initialize_at_7 execute_at_7)

section \<open>Properties of the on-ledger program\<close>

lemma unat_ucast_u64_u128: "unat (ucast (a :: u64) :: u128) = unat a"
proof -
  have "unat a < 2 ^ 64" using unsigned_less [of a, where ?'a = nat] by simp
  then have "unat a < 2 ^ 128" by (rule less_le_trans) simp
  then show ?thesis by (simp add: unsigned_ucast_eq take_bit_nat_eq_self)
qed

lemma unat_ucast_u8_u128: "unat (ucast (p :: u8) :: u128) = unat p"
proof -
  have "unat p < 2 ^ 8" using unsigned_less [of p, where ?'a = nat] by simp
  then have "unat p < 2 ^ 128" by (rule less_le_trans) simp
  then show ?thesis by (simp add: unsigned_ucast_eq take_bit_nat_eq_self)
qed

lemma product_fits_u128: "unat (a :: u64) * unat (p :: u8) < 2 ^ 128"
proof -
  have a: "unat a < 2 ^ 64" using unsigned_less [of a, where ?'a = nat] by simp
  have p: "unat p < 2 ^ 8" using unsigned_less [of p, where ?'a = nat] by simp
  from a p have "unat a * unat p < 2 ^ 64 * 2 ^ 8"
    by (rule mult_strict_mono') simp_all
  also have "(2::nat) ^ 64 * 2 ^ 8 \<le> 2 ^ 128" by simp
  finally show ?thesis .
qed

lemma checked_mul_never_overflows:
  "checked_mul_u128 (ucast (a :: u64)) (ucast (p :: u8)) = Some (ucast a * ucast p)"
  using product_fits_u128 [of a p]
  by (simp add: checked_mul_u128_def unat_ucast_u64_u128 unat_ucast_u8_u128)

lemma unat_product_u128:
  "unat (ucast (a :: u64) * ucast (p :: u8) :: u128) = unat a * unat p"
proof -
  have "unat (ucast a :: u128) * unat (ucast p :: u128) < 2 ^ LENGTH(128)"
    using product_fits_u128 [of a p]
    by (simp add: unat_ucast_u64_u128 unat_ucast_u8_u128)
  then have "unat (ucast a * ucast p :: u128) = unat (ucast a :: u128) * unat (ucast p :: u128)"
    by (simp only: unat_mult_lem)
  then show ?thesis by (simp add: unat_ucast_u64_u128 unat_ucast_u8_u128)
qed

lemma amount1_of_value:
  "\<exists>amount1. amount1_of a p = Some amount1
      \<and> unat amount1 = (unat a * unat p div 100) mod 2 ^ 64"
proof -
  have "unat ((ucast a * ucast p :: u128) div 100) = unat a * unat p div 100"
    by (simp add: unat_div unat_product_u128)
  then have "unat (ucast ((ucast a * ucast p :: u128) div 100) :: u64)
               = (unat a * unat p div 100) mod 2 ^ 64"
    by (simp add: unsigned_ucast_eq take_bit_eq_mod)
  then show ?thesis
    by (simp add: amount1_of_def checked_mul_never_overflows checked_div_u128_def)
qed

lemma amount1_of_share:
  assumes "unat p \<le> 100"
  shows "\<exists>amount1. amount1_of a p = Some amount1
      \<and> unat amount1 = unat a * unat p div 100 \<and> unat amount1 \<le> unat a"
proof -
  from amount1_of_value obtain amount1 where s: "amount1_of a p = Some amount1"
    and v: "unat amount1 = (unat a * unat p div 100) mod 2 ^ 64"
    by blast
  from assms have "unat a * unat p \<le> unat a * 100" by simp
  then have le: "unat a * unat p div 100 \<le> unat a"
    by (metis div_le_mono nonzero_mult_div_cancel_right zero_neq_numeral)
  have "unat a < 2 ^ 64" using unsigned_less [of a, where ?'a = nat] by simp
  with le have "unat a * unat p div 100 < 2 ^ 64" by simp
  with v have "unat amount1 = unat a * unat p div 100" by simp
  with s le show ?thesis by simp
qed

lemma split_33_67: "amount1_of 1000 33 = Some 330 \<and> checked_sub_u64 1000 330 = Some 670"
  by (simp add: amount1_of_def checked_mul_u128_def checked_div_u128_def checked_sub_u64_def)


lemma transfer_ok:
  "amt \<le> balances L src \<Longrightarrow>
     transfer src dst amt L =
       Inr (L\<lparr>balances := ((balances L)(src := balances L src - amt))
                 (dst := ((balances L)(src := balances L src - amt)) dst + amt)\<rparr>)"
  by (simp add: transfer_def Let_def)

lemma transfer_records: "transfer src dst amt L = Inr L' \<Longrightarrow> records L' = records L"
  by (auto simp: transfer_def Let_def split: if_splits)

lemma transfer_deposits: "transfer src dst amt L = Inr L' \<Longrightarrow> deposits L' = deposits L"
  by (auto simp: transfer_def Let_def split: if_splits)

lemma execute_records:
  assumes "execute h caller a r1 r2 amt L = Inr L'"
  shows "\<exists>r. records L a = Some r \<and> \<not> executed r
           \<and> records L' = (records L)(a \<mapsto> r\<lparr>executed := True, executedAt := now h\<rparr>)"
  using assms
  by (auto simp: execute_def split: option.splits if_splits sum.splits
        dest!: transfer_records)

lemma transfer_Inr:
  "transfer src dst amt L = Inr L' \<Longrightarrow>
     amt \<le> balances L src \<and>
     L' = L\<lparr>balances := ((balances L)(src := balances L src - amt))
                 (dst := ((balances L)(src := balances L src - amt)) dst + amt)\<rparr>"
  by (auto simp: transfer_def Let_def split: if_splits)

lemma execute_success_pays:
  assumes rec: "records L addr = Some r"
    and shares: "unat (share1 r) + unat (share2 r) = 100"
    and ex: "execute h caller addr r1 r2 amt L = Inr L'"
  shows "\<exists>amount1 amount2.
             amount1_of amt (share1 r) = Some amount1
           \<and> unat amount1 = unat amt * unat (share1 r) div 100
           \<and> amount2 = amt - amount1
           \<and> unat amount1 + unat amount2 = unat amt
           \<and> (\<forall>k. balances L' k =
                    balances L k - (if k = owner r then uint amt else 0)
                      + (if k = r1 then uint amount1 else 0)
                      + (if k = r2 then uint amount2 else 0))"
proof -
  from shares have "unat (share1 r) \<le> 100" by simp
  from amount1_of_share [OF this, of amt] obtain amount1
    where s: "amount1_of amt (share1 r) = Some amount1"
      and v: "unat amount1 = unat amt * unat (share1 r) div 100"
      and le: "unat amount1 \<le> unat amt"
    by blast
  define amount2 where "amount2 = amt - amount1"
  from le have wle: "amount1 \<le> amt" by (simp add: word_le_nat_alt)
  then have u2: "unat amount2 = unat amt - unat amount1"
    by (simp add: amount2_def unat_sub)
  with le have sum: "unat amount1 + unat amount2 = unat amt" by simp
  then have isum: "uint amount1 + uint amount2 = uint amt"
    by (metis uint_nat of_nat_add)
  from le have c: "checked_sub_u64 amt amount1 = Some amount2"
    by (simp add: checked_sub_u64_def amount2_def)
  from ex rec s c obtain L1 L2
    where t1: "transfer (owner r) r1 (uint amount1) L = Inr L1"
      and t2: "transfer (owner r) r2 (uint amount2) L1 = Inr L2"
      and L': "L' = L2\<lparr>records := (records L2)
                           (addr \<mapsto> r\<lparr>executed := True, executedAt := now h\<rparr>)\<rparr>"
    by (auto simp: execute_def split: if_splits sum.splits)
  from transfer_Inr [OF t1] have L1: "L1 = L\<lparr>balances := ((balances L)(owner r := balances L (owner r) - uint amount1))
                 (r1 := ((balances L)(owner r := balances L (owner r) - uint amount1)) r1
                          + uint amount1)\<rparr>"
    by simp
  from transfer_Inr [OF t2] have L2: "L2 = L1\<lparr>balances := ((balances L1)(owner r := balances L1 (owner r) - uint amount2))
                 (r2 := ((balances L1)(owner r := balances L1 (owner r) - uint amount2)) r2
                          + uint amount2)\<rparr>"
    by simp
  have bal: "\<forall>k. balances L' k =
                    balances L k - (if k = owner r then uint amt else 0)
                      + (if k = r1 then uint amount1 else 0)
                      + (if k = r2 then uint amount2 else 0)"
    using isum by (auto simp: L' L2 L1)
  from s v sum bal show ?thesis unfolding amount2_def by blast
qed

text \<open>
  C1. The 128-bit product of a 64-bit amount and an 8-bit share never overflows, so
  \<open>amount1\<close> is computed for every amount. For every record whose shares sum to 100 and
  are positive, and every amount of at least the minimum transfer threshold, an Execute
  by the owner that names the stored recipients and is covered by the owner's balance
  succeeds; it moves \<open>amount1 = floor(amount * share1 / 100)\<close> to recipient1 and
  \<open>amount2 = amount - amount1\<close> to recipient2, \<open>amount1 + amount2 = amount\<close>, and the owner
  is debited \<open>amount\<close>. Every Execute that succeeds on a record whose shares sum to 100
  moves exactly these amounts. Shares 33 and 67 with amount 1000 give 330 and 670.
\<close>

theorem execute_pays_exact_split:
  "(\<forall>(a::u64) (p::u8). checked_mul_u128 (ucast a) (ucast p) \<noteq> None \<and> amount1_of a p \<noteq> None)
   \<and> amount1_of 1000 33 = Some 330 \<and> checked_sub_u64 1000 330 = Some 670
   \<and> (records L addr = Some r
        \<and> unat (share1 r) + unat (share2 r) = 100 \<and> share1 r \<noteq> 0 \<and> share2 r \<noteq> 0
        \<and> \<not> executed r \<and> caller = owner r
        \<and> r1 = recipient1_id r \<and> r2 = recipient2_id r
        \<and> minimumTransferThreshold \<le> amt
        \<and> uint amt \<le> balances L (owner r)
      \<longrightarrow> (\<exists>amount1 amount2 L'.
             amount1_of amt (share1 r) = Some amount1
           \<and> unat amount1 = unat amt * unat (share1 r) div 100
           \<and> amount2 = amt - amount1
           \<and> unat amount1 + unat amount2 = unat amt
           \<and> execute h caller addr r1 r2 amt L = Inr L'
           \<and> (\<forall>k. balances L' k =
                    balances L k - (if k = owner r then uint amt else 0)
                      + (if k = r1 then uint amount1 else 0)
                      + (if k = r2 then uint amount2 else 0))))
   \<and> (records L addr = Some r \<and> unat (share1 r) + unat (share2 r) = 100
        \<and> execute h caller addr r1 r2 amt L = Inr L2
      \<longrightarrow> (\<exists>amount1 amount2.
             amount1_of amt (share1 r) = Some amount1
           \<and> unat amount1 = unat amt * unat (share1 r) div 100
           \<and> amount2 = amt - amount1
           \<and> unat amount1 + unat amount2 = unat amt
           \<and> (\<forall>k. balances L2 k =
                    balances L k - (if k = owner r then uint amt else 0)
                      + (if k = r1 then uint amount1 else 0)
                      + (if k = r2 then uint amount2 else 0))))"
proof (intro conjI allI impI)
  fix a :: u64 and p :: u8
  show "checked_mul_u128 (ucast a) (ucast p) \<noteq> None"
    by (simp add: checked_mul_never_overflows)
  show "amount1_of a p \<noteq> None"
    using amount1_of_value [of a p] by auto
next
  show "amount1_of 1000 33 = Some 330" using split_33_67 by simp
  show "checked_sub_u64 1000 330 = Some 670" using split_33_67 by simp
next
  assume a: "records L addr = Some r
        \<and> unat (share1 r) + unat (share2 r) = 100 \<and> share1 r \<noteq> 0 \<and> share2 r \<noteq> 0
        \<and> \<not> executed r \<and> caller = owner r
        \<and> r1 = recipient1_id r \<and> r2 = recipient2_id r
        \<and> minimumTransferThreshold \<le> amt
        \<and> uint amt \<le> balances L (owner r)"
  then have "unat (share1 r) \<le> 100" by simp
  from amount1_of_share [OF this, of amt] obtain amount1
    where s: "amount1_of amt (share1 r) = Some amount1"
      and v: "unat amount1 = unat amt * unat (share1 r) div 100"
      and le: "unat amount1 \<le> unat amt"
    by blast
  define amount2 where "amount2 = amt - amount1"
  from le have wle: "amount1 \<le> amt" by (simp add: word_le_nat_alt)
  then have u2: "unat amount2 = unat amt - unat amount1"
    by (simp add: amount2_def unat_sub)
  with le have sum: "unat amount1 + unat amount2 = unat amt" by simp
  then have isum: "uint amount1 + uint amount2 = uint amt"
    by (metis uint_nat of_nat_add)
  from le have c: "checked_sub_u64 amt amount1 = Some amount2"
    by (simp add: checked_sub_u64_def amount2_def)
  have nn: "0 \<le> uint amount1" "0 \<le> uint amount2" by simp_all
  from a isum nn have f1: "uint amount1 \<le> balances L (owner r)" by linarith
  define L1 where "L1 = L\<lparr>balances := ((balances L)(owner r := balances L (owner r) - uint amount1))
                 (r1 := ((balances L)(owner r := balances L (owner r) - uint amount1)) r1
                          + uint amount1)\<rparr>"
  from f1 have t1: "transfer (owner r) r1 (uint amount1) L = Inr L1"
    unfolding L1_def by (rule transfer_ok)
  from isum nn have le2: "uint amount2 \<le> uint amt" by linarith
  from a have funds: "uint amt \<le> balances L (owner r)" by simp
  have f2: "uint amount2 \<le> balances L1 (owner r)"
  proof (cases "r1 = owner r")
    case True
    with funds le2 show ?thesis by (simp add: L1_def)
  next
    case False
    with funds isum show ?thesis by (simp add: L1_def)
  qed
  define L2 where "L2 = L1\<lparr>balances := ((balances L1)(owner r := balances L1 (owner r) - uint amount2))
                 (r2 := ((balances L1)(owner r := balances L1 (owner r) - uint amount2)) r2
                          + uint amount2)\<rparr>"
  from f2 have t2: "transfer (owner r) r2 (uint amount2) L1 = Inr L2"
    unfolding L2_def by (rule transfer_ok)
  define L' where "L' = L2\<lparr>records := (records L2)
                           (addr \<mapsto> r\<lparr>executed := True, executedAt := now h\<rparr>)\<rparr>"
  from a have nlt: "\<not> amt < minimumTransferThreshold" by (simp add: not_less)
  from a s c t1 t2 nlt have ex: "execute h caller addr r1 r2 amt L = Inr L'"
    by (simp add: execute_def L'_def)
  have bal: "\<forall>k. balances L' k =
                    balances L k - (if k = owner r then uint amt else 0)
                      + (if k = r1 then uint amount1 else 0)
                      + (if k = r2 then uint amount2 else 0)"
    using isum by (auto simp: L'_def L2_def L1_def)
  from s v sum ex bal show "\<exists>amount1 amount2 L'.
             amount1_of amt (share1 r) = Some amount1
           \<and> unat amount1 = unat amt * unat (share1 r) div 100
           \<and> amount2 = amt - amount1
           \<and> unat amount1 + unat amount2 = unat amt
           \<and> execute h caller addr r1 r2 amt L = Inr L'
           \<and> (\<forall>k. balances L' k =
                    balances L k - (if k = owner r then uint amt else 0)
                      + (if k = r1 then uint amount1 else 0)
                      + (if k = r2 then uint amount2 else 0))"
    unfolding amount2_def by blast
next
  assume "records L addr = Some r \<and> unat (share1 r) + unat (share2 r) = 100
        \<and> execute h caller addr r1 r2 amt L = Inr L2"
  then show "\<exists>amount1 amount2.
             amount1_of amt (share1 r) = Some amount1
           \<and> unat amount1 = unat amt * unat (share1 r) div 100
           \<and> amount2 = amt - amount1
           \<and> unat amount1 + unat amount2 = unat amt
           \<and> (\<forall>k. balances L2 k =
                    balances L k - (if k = owner r then uint amt else 0)
                      + (if k = r1 then uint amount1 else 0)
                      + (if k = r2 then uint amount2 else 0))"
    by (intro execute_success_pays) blast+
qed

lemma key_of_byte_eq [simp]: "key_of_byte a = key_of_byte b \<longleftrightarrow> a = b"
  by (simp add: key_of_byte_def)

lemma created_lookup: "records created_ledger example_address = Some example_record"
  by (simp add: created_ledger_def)

theorem execute_pays_exact_split_witness:
  "records created_ledger example_address = Some example_record
   \<and> unat (share1 example_record) + unat (share2 example_record) = 100
   \<and> share1 example_record \<noteq> 0 \<and> share2 example_record \<noteq> 0
   \<and> \<not> executed example_record \<and> key_of_byte 1 = owner example_record
   \<and> key_of_byte 2 = recipient1_id example_record
   \<and> key_of_byte 3 = recipient2_id example_record
   \<and> minimumTransferThreshold \<le> 1000
   \<and> uint (1000 :: u64) \<le> balances created_ledger (owner example_record)
   \<and> (\<exists>L'. execute example_host (key_of_byte 1) example_address (key_of_byte 2)
               (key_of_byte 3) 1000 created_ledger = Inr L'
          \<and> balances L' (key_of_byte 1) = 4998189400
          \<and> balances L' (key_of_byte 2) = 330
          \<and> balances L' (key_of_byte 3) = 670)"
proof -
  have hyp: "records created_ledger example_address = Some example_record
   \<and> unat (share1 example_record) + unat (share2 example_record) = 100
   \<and> share1 example_record \<noteq> 0 \<and> share2 example_record \<noteq> 0
   \<and> \<not> executed example_record \<and> key_of_byte 1 = owner example_record
   \<and> key_of_byte 2 = recipient1_id example_record
   \<and> key_of_byte 3 = recipient2_id example_record
   \<and> minimumTransferThreshold \<le> 1000
   \<and> uint (1000 :: u64) \<le> balances created_ledger (owner example_record)"
    by (simp add: created_lookup example_record_def minimumTransferThreshold_def
          created_ledger_def)
  from execute_pays_exact_split [of created_ledger example_address example_record
      "key_of_byte 1" "key_of_byte 2" "key_of_byte 3" 1000 example_host] hyp
  obtain L' where ex: "execute example_host (key_of_byte 1) example_address (key_of_byte 2)
               (key_of_byte 3) 1000 created_ledger = Inr L'"
    by blast
  note paid = execute_pays_exact_split [of created_ledger example_address example_record
      "key_of_byte 1" "key_of_byte 2" "key_of_byte 3" 1000 example_host L']
  from hyp ex have hyp2: "records created_ledger example_address = Some example_record
        \<and> unat (share1 example_record) + unat (share2 example_record) = 100
        \<and> execute example_host (key_of_byte 1) example_address (key_of_byte 2)
               (key_of_byte 3) 1000 created_ledger = Inr L'"
    by simp
  from paid hyp2 obtain amount1 amount2
    where a1: "amount1_of 1000 (share1 example_record) = Some amount1"
      and a2: "amount2 = 1000 - amount1"
      and bal: "\<forall>k. balances L' k =
                    balances created_ledger k
                      - (if k = owner example_record then uint (1000 :: u64) else 0)
                      + (if k = key_of_byte 2 then uint amount1 else 0)
                      + (if k = key_of_byte 3 then uint amount2 else 0)"
    by blast
  from paid have "amount1_of 1000 33 = Some 330" by blast
  with a1 have v1: "amount1 = 330" by (simp add: example_record_def)
  with a2 have v2: "amount2 = 670" by simp
  from bal v1 v2 have "balances L' (key_of_byte 1) = 4998189400"
    and "balances L' (key_of_byte 2) = 330"
    and "balances L' (key_of_byte 3) = 670"
    by (simp_all add: example_record_def created_ledger_def)
  with hyp ex show ?thesis by blast
qed


lemma executed_lookup:
  "records executed_ledger example_address
     = Some (example_record\<lparr>executed := True, executedAt := 1700000100\<rparr>)"
  by (simp add: executed_ledger_def)

lemma execute_created:
  "\<exists>L'. execute example_host (key_of_byte 1) example_address (key_of_byte 2) (key_of_byte 3)
          1000 created_ledger = Inr L'"
  by (simp add: execute_def created_lookup example_record_def minimumTransferThreshold_def
        amount1_of_def checked_mul_u128_def checked_div_u128_def checked_sub_u64_def
        transfer_def Let_def created_ledger_def)

lemma initialize_records_other:
  "initialize h own s1 s2 seq r1 r2 L = Inr L' \<Longrightarrow> records L a = Some r
     \<Longrightarrow> records L' a = Some r"
  by (auto simp: initialize_def allocate_def split: if_splits prod.splits)

lemma deallocate_records:
  "records (deallocate a payer L) b = (if b = a then None else records L b)"
  by (simp add: deallocate_def)

lemma submit_keeps_executed:
  assumes rec: "records L addr = Some r" and ex: "executed r"
    and sub: "submit h op L = (res, L')"
  shows "records L' addr = None \<or> (\<exists>r'. records L' addr = Some r' \<and> executed r')"
proof (cases "perform h op L")
  case (Inl e)
  with sub have "L' = L" by (simp add: submit_def)
  with rec ex show ?thesis by simp
next
  case (Inr L1)
  with sub have L': "L' = L1" by (simp add: submit_def)
  show ?thesis
  proof (cases op)
    case (Initialize own s1 s2 seq q1 q2)
    with Inr have "initialize h own s1 s2 seq q1 q2 L = Inr L1" by simp
    from initialize_records_other [OF this rec] L' ex show ?thesis by simp
  next
    case (Execute c a q1 q2 m)
    with Inr have e: "execute h c a q1 q2 m L = Inr L1" by simp
    from execute_records [OF e] obtain r0 where r0: "records L a = Some r0" "\<not> executed r0"
      and upd: "records L1 = (records L)(a \<mapsto> r0\<lparr>executed := True, executedAt := now h\<rparr>)"
      by blast
    from r0 rec ex have "a \<noteq> addr" by auto
    with upd rec ex L' show ?thesis by simp
  next
    case (Cancel c a)
    with Inr have "cancel c a L = Inr L1" by simp
    then obtain payer where "L1 = deallocate a payer L"
      by (auto simp: cancel_def split: option.splits if_splits)
    with rec ex L' show ?thesis by (simp add: deallocate_records)
  next
    case (Close c a)
    with Inr have "close c a L = Inr L1" by simp
    then obtain payer where "L1 = deallocate a payer L"
      by (auto simp: close_def split: option.splits if_splits)
    with rec ex L' show ?thesis by (simp add: deallocate_records)
  qed
qed

lemma submit_all_keeps_executed:
  "records L addr = Some r \<Longrightarrow> executed r
     \<Longrightarrow> \<forall>k\<le>length ops. records (submit_all (take k ops) L) addr \<noteq> None
     \<Longrightarrow> \<exists>r'. records (submit_all ops L) addr = Some r' \<and> executed r'"
proof (induction ops arbitrary: L r)
  case Nil
  then show ?case by simp
next
  case (Cons x ops)
  obtain h op where x: "x = (h, op)" by (cases x)
  obtain res L1 where sub: "submit h op L = (res, L1)" by (cases "submit h op L")
  from Cons.prems(3) have "records (submit_all (take 1 (x # ops)) L) addr \<noteq> None"
    by (metis One_nat_def Suc_leI length_Cons zero_less_Suc)
  with x sub have ne: "records L1 addr \<noteq> None" by simp
  from submit_keeps_executed [OF Cons.prems(1) Cons.prems(2) sub] ne
  obtain r1 where r1: "records L1 addr = Some r1" "executed r1" by auto
  have "\<forall>k\<le>length ops. records (submit_all (take k ops) L1) addr \<noteq> None"
  proof (intro allI impI)
    fix k assume "k \<le> length ops"
    then have "Suc k \<le> length (x # ops)" by simp
    with Cons.prems(3) have "records (submit_all (take (Suc k) (x # ops)) L) addr \<noteq> None"
      by blast
    with x sub show "records (submit_all (take k ops) L1) addr \<noteq> None" by simp
  qed
  from Cons.IH [OF r1 this] x sub show ?case by simp
qed

text \<open>
  C2. A record whose \<open>executed\<close> flag is set keeps it set: after any operation the
  record at that address is either still there with the flag set, or destroyed, and so
  for as long as the record is there, through any sequence of operations; the flag goes
  from unset to set exactly in a successful Execute. Every Execute against a record
  whose flag is set fails with \<open>AlreadyExecuted\<close>, whatever the amount, the caller and the
  recipients named, and the ledger (records and balances) stays as it was.
\<close>

theorem executed_never_reset:
  "(records L addr = Some r \<and> executed r \<longrightarrow>
       submit h (Execute caller addr r1 r2 amt) L = (Some AlreadyExecuted, L))
   \<and> (records L addr = Some r \<and> executed r \<and> submit h op L = (res, L') \<longrightarrow>
       records L' addr = None \<or> (\<exists>r'. records L' addr = Some r' \<and> executed r'))
   \<and> (records L addr = Some r \<and> executed r
        \<and> (\<forall>k\<le>length ops. records (submit_all (take k ops) L) addr \<noteq> None) \<longrightarrow>
       (\<exists>r'. records (submit_all ops L) addr = Some r' \<and> executed r'))
   \<and> (execute h caller addr r1 r2 amt L = Inr L2 \<longrightarrow>
       (\<exists>r0. records L addr = Some r0 \<and> \<not> executed r0
           \<and> records L2 addr = Some (r0\<lparr>executed := True, executedAt := now h\<rparr>)))"
proof (intro conjI impI)
  assume "records L addr = Some r \<and> executed r"
  then show "submit h (Execute caller addr r1 r2 amt) L = (Some AlreadyExecuted, L)"
    by (simp add: submit_def execute_def)
next
  assume "records L addr = Some r \<and> executed r \<and> submit h op L = (res, L')"
  then have "records L addr = Some r" and "executed r" and "submit h op L = (res, L')"
    by simp_all
  then show "records L' addr = None \<or> (\<exists>r'. records L' addr = Some r' \<and> executed r')"
    by (rule submit_keeps_executed)
next
  assume "records L addr = Some r \<and> executed r
        \<and> (\<forall>k\<le>length ops. records (submit_all (take k ops) L) addr \<noteq> None)"
  then have "records L addr = Some r" and "executed r"
    and "\<forall>k\<le>length ops. records (submit_all (take k ops) L) addr \<noteq> None"
    by simp_all
  then show "\<exists>r'. records (submit_all ops L) addr = Some r' \<and> executed r'"
    by (rule submit_all_keeps_executed)
next
  assume "execute h caller addr r1 r2 amt L = Inr L2"
  from execute_records [OF this]
  show "\<exists>r0. records L addr = Some r0 \<and> \<not> executed r0
           \<and> records L2 addr = Some (r0\<lparr>executed := True, executedAt := now h\<rparr>)"
    by auto
qed

lemma retries_rejected:
  "submit example_host (Execute (key_of_byte 1) example_address (key_of_byte 2) (key_of_byte 3)
       500000000) executed_ledger = (Some AlreadyExecuted, executed_ledger)"
  "submit example_host (Cancel (key_of_byte 1) example_address) executed_ledger
     = (Some AlreadyExecuted, executed_ledger)"
  by (simp_all add: submit_def execute_def cancel_def executed_lookup example_record_def)

lemma retries_keep_ledger:
  assumes "k \<le> length example_retries"
  shows "submit_all (take k example_retries) executed_ledger = executed_ledger"
proof -
  from assms have "k = 0 \<or> k = Suc 0 \<or> k = Suc (Suc 0)"
    by (auto simp: example_retries_def)
  then show ?thesis
    by (auto simp: example_retries_def retries_rejected)
qed

theorem executed_never_reset_witness:
  "(records executed_ledger example_address
       = Some (example_record\<lparr>executed := True, executedAt := 1700000100\<rparr>)
     \<and> executed (example_record\<lparr>executed := True, executedAt := 1700000100\<rparr>)
     \<and> submit example_host (Execute (key_of_byte 1) example_address (key_of_byte 2)
          (key_of_byte 3) 500000000) executed_ledger = (Some AlreadyExecuted, executed_ledger))
   \<and> (\<exists>res L'. submit example_host (Close (key_of_byte 1) example_address) executed_ledger
          = (res, L')
        \<and> (records L' example_address = None
            \<or> (\<exists>r'. records L' example_address = Some r' \<and> executed r')))
   \<and> (submit_all (take 0 example_retries) executed_ledger = executed_ledger
        \<and> submit_all (take 1 example_retries) executed_ledger = executed_ledger
        \<and> submit_all (take 2 example_retries) executed_ledger = executed_ledger
        \<and> length example_retries = 2
        \<and> (\<exists>r'. records (submit_all example_retries executed_ledger) example_address = Some r'
              \<and> executed r'))
   \<and> (\<exists>L2. execute example_host (key_of_byte 1) example_address (key_of_byte 2)
          (key_of_byte 3) 1000 created_ledger = Inr L2
        \<and> records L2 example_address
            = Some (example_record\<lparr>executed := True, executedAt := now example_host\<rparr>))"
proof -
  have h1: "records executed_ledger example_address
       = Some (example_record\<lparr>executed := True, executedAt := 1700000100\<rparr>)
     \<and> executed (example_record\<lparr>executed := True, executedAt := 1700000100\<rparr>)"
    by (simp add: executed_lookup)
  obtain res L' where sub: "submit example_host (Close (key_of_byte 1) example_address)
      executed_ledger = (res, L')"
    by (cases "submit example_host (Close (key_of_byte 1) example_address) executed_ledger")
  obtain L2 where ex: "execute example_host (key_of_byte 1) example_address (key_of_byte 2)
          (key_of_byte 3) 1000 created_ledger = Inr L2"
    using execute_created by blast
  have stays: "\<forall>k\<le>length example_retries.
      records (submit_all (take k example_retries) executed_ledger) example_address \<noteq> None"
    by (simp add: retries_keep_ledger executed_lookup)
  note i1 = executed_never_reset [of executed_ledger example_address
      "example_record\<lparr>executed := True, executedAt := 1700000100\<rparr>" example_host
      "key_of_byte 1" "key_of_byte 2" "key_of_byte 3" 500000000
      "Close (key_of_byte 1) example_address" res L' example_retries]
  note i2 = executed_never_reset [of created_ledger example_address example_record example_host
      "key_of_byte 1" "key_of_byte 2" "key_of_byte 3" 1000
      "Close (key_of_byte 1) example_address" res L' example_retries L2]
  from i1 h1 have c1: "submit example_host (Execute (key_of_byte 1) example_address
      (key_of_byte 2) (key_of_byte 3) 500000000) executed_ledger
        = (Some AlreadyExecuted, executed_ledger)"
    by blast
  from i1 h1 sub have c2: "records L' example_address = None
            \<or> (\<exists>r'. records L' example_address = Some r' \<and> executed r')"
    by blast
  from i1 h1 stays
  have c3: "\<exists>r'. records (submit_all example_retries executed_ledger) example_address = Some r'
              \<and> executed r'"
    by blast
  from i2 ex have "\<exists>r0. records created_ledger example_address = Some r0 \<and> \<not> executed r0
      \<and> records L2 example_address = Some (r0\<lparr>executed := True, executedAt := now example_host\<rparr>)"
    by blast
  then have c4: "records L2 example_address
            = Some (example_record\<lparr>executed := True, executedAt := now example_host\<rparr>)"
    by (auto simp: created_lookup)
  have each: "submit_all (take 0 example_retries) executed_ledger = executed_ledger
        \<and> submit_all (take 1 example_retries) executed_ledger = executed_ledger
        \<and> submit_all (take 2 example_retries) executed_ledger = executed_ledger
        \<and> length example_retries = 2"
    by (simp add: example_retries_def retries_rejected)
  from h1 c1 sub c2 each c3 ex c4 show ?thesis by blast
qed

lemma initialize_success:
  assumes "unat s1 + unat s2 = 100" "s1 \<noteq> 0" "s2 \<noteq> 0" "r1 \<noteq> r2"
    "\<not> reserved r1" "\<not> reserved r2" "records L (fst (record_address h own seq)) = None"
  shows "initialize h own s1 s2 seq r1 r2 L =
     Inr (L\<lparr> records := (records L)(fst (record_address h own seq) \<mapsto>
                   \<lparr> owner = own, recipient1_id = r1, recipient2_id = r2,
                     share1 = s1, share2 = s2, executed = False, sequence = seq,
                     createdAt = now h, executedAt = 0,
                     addressSalt = snd (record_address h own seq) \<rparr>),
               deposits := (deposits L)(fst (record_address h own seq) := storage_deposit h),
               balances := (balances L)(own := balances L own - storage_deposit h) \<rparr>)"
  using assms by (simp add: initialize_def allocate_def case_prod_beta)

lemma initialize_occupied:
  assumes "unat s1 + unat s2 = 100" "s1 \<noteq> 0" "s2 \<noteq> 0" "r1 \<noteq> r2"
    "\<not> reserved r1" "\<not> reserved r2" "records L (fst (record_address h own seq)) \<noteq> None"
  shows "initialize h own s1 s2 seq r1 r2 L = Inl AllocationFailed"
  using assms by (simp add: initialize_def allocate_def case_prod_beta)

text \<open>
  C6. Initialize succeeds exactly when the shares sum to 100, both are positive, the
  recipients differ, neither is reserved, and no record is at the derived address; the
  record it stores carries the shares (and owner, recipients, sequence number) of the
  input and is not executed. Otherwise it fails, reporting the first precondition that
  does not hold: \<open>InvalidPercentages\<close> when the sum is not 100, \<open>ZeroPercentage\<close> when a share
  is 0, \<open>DuplicateRecipient\<close> when the recipients are equal, \<open>InvalidRecipient\<close> when one is
  reserved; a failed Initialize leaves the ledger as it was, so no record is created.
\<close>

theorem initialize_validation:
  "((\<exists>L'. initialize h own s1 s2 seq r1 r2 L = Inr L') \<longleftrightarrow>
      (unat s1 + unat s2 = 100 \<and> s1 \<noteq> 0 \<and> s2 \<noteq> 0 \<and> r1 \<noteq> r2
       \<and> \<not> reserved r1 \<and> \<not> reserved r2
       \<and> records L (fst (record_address h own seq)) = None))
   \<and> (\<forall>L'. initialize h own s1 s2 seq r1 r2 L = Inr L' \<longrightarrow>
         (\<exists>r. records L' (fst (record_address h own seq)) = Some r
            \<and> share1 r = s1 \<and> share2 r = s2 \<and> owner r = own
            \<and> recipient1_id r = r1 \<and> recipient2_id r = r2 \<and> sequence r = seq
            \<and> \<not> executed r))
   \<and> (unat s1 + unat s2 \<noteq> 100 \<longrightarrow>
         initialize h own s1 s2 seq r1 r2 L = Inl InvalidPercentages)
   \<and> (unat s1 + unat s2 = 100 \<and> (s1 = 0 \<or> s2 = 0) \<longrightarrow>
         initialize h own s1 s2 seq r1 r2 L = Inl ZeroPercentage)
   \<and> (unat s1 + unat s2 = 100 \<and> s1 \<noteq> 0 \<and> s2 \<noteq> 0 \<and> r1 = r2 \<longrightarrow>
         initialize h own s1 s2 seq r1 r2 L = Inl DuplicateRecipient)
   \<and> (unat s1 + unat s2 = 100 \<and> s1 \<noteq> 0 \<and> s2 \<noteq> 0 \<and> r1 \<noteq> r2
        \<and> (reserved r1 \<or> reserved r2) \<longrightarrow>
         initialize h own s1 s2 seq r1 r2 L = Inl InvalidRecipient)
   \<and> (\<forall>e. initialize h own s1 s2 seq r1 r2 L = Inl e \<longrightarrow>
         submit h (Initialize own s1 s2 seq r1 r2) L = (Some e, L))"
proof (intro conjI)
  show "(\<exists>L'. initialize h own s1 s2 seq r1 r2 L = Inr L') \<longleftrightarrow>
      (unat s1 + unat s2 = 100 \<and> s1 \<noteq> 0 \<and> s2 \<noteq> 0 \<and> r1 \<noteq> r2
       \<and> \<not> reserved r1 \<and> \<not> reserved r2
       \<and> records L (fst (record_address h own seq)) = None)"
  proof
    assume "\<exists>L'. initialize h own s1 s2 seq r1 r2 L = Inr L'"
    then show "unat s1 + unat s2 = 100 \<and> s1 \<noteq> 0 \<and> s2 \<noteq> 0 \<and> r1 \<noteq> r2
       \<and> \<not> reserved r1 \<and> \<not> reserved r2
       \<and> records L (fst (record_address h own seq)) = None"
      by (auto simp: initialize_def allocate_def case_prod_beta split: if_splits)
  next
    assume "unat s1 + unat s2 = 100 \<and> s1 \<noteq> 0 \<and> s2 \<noteq> 0 \<and> r1 \<noteq> r2
       \<and> \<not> reserved r1 \<and> \<not> reserved r2
       \<and> records L (fst (record_address h own seq)) = None"
    then show "\<exists>L'. initialize h own s1 s2 seq r1 r2 L = Inr L'"
      by (simp add: initialize_success)
  qed
  show "\<forall>L'. initialize h own s1 s2 seq r1 r2 L = Inr L' \<longrightarrow>
         (\<exists>r. records L' (fst (record_address h own seq)) = Some r
            \<and> share1 r = s1 \<and> share2 r = s2 \<and> owner r = own
            \<and> recipient1_id r = r1 \<and> recipient2_id r = r2 \<and> sequence r = seq
            \<and> \<not> executed r)"
    by (auto simp: initialize_def allocate_def case_prod_beta split: if_splits)
  show "unat s1 + unat s2 \<noteq> 100 \<longrightarrow>
         initialize h own s1 s2 seq r1 r2 L = Inl InvalidPercentages"
    by (simp add: initialize_def)
  show "unat s1 + unat s2 = 100 \<and> (s1 = 0 \<or> s2 = 0) \<longrightarrow>
         initialize h own s1 s2 seq r1 r2 L = Inl ZeroPercentage"
    by (auto simp: initialize_def)
  show "unat s1 + unat s2 = 100 \<and> s1 \<noteq> 0 \<and> s2 \<noteq> 0 \<and> r1 = r2 \<longrightarrow>
         initialize h own s1 s2 seq r1 r2 L = Inl DuplicateRecipient"
    by (auto simp: initialize_def)
  show "unat s1 + unat s2 = 100 \<and> s1 \<noteq> 0 \<and> s2 \<noteq> 0 \<and> r1 \<noteq> r2
        \<and> (reserved r1 \<or> reserved r2) \<longrightarrow>
         initialize h own s1 s2 seq r1 r2 L = Inl InvalidRecipient"
    by (auto simp: initialize_def)
  show "\<forall>e. initialize h own s1 s2 seq r1 r2 L = Inl e \<longrightarrow>
         submit h (Initialize own s1 s2 seq r1 r2) L = (Some e, L)"
    by (simp add: submit_def)
qed

lemma reserved_key_of_byte [simp]: "reserved (key_of_byte b) \<longleftrightarrow> b = 0"
  by (simp add: reserved_def SystemProgram_programId_def key_of_byte_def)

lemma reserved_system [simp]: "reserved SystemProgram_programId"
  by (simp add: reserved_def)

lemma system_is_key_0: "SystemProgram_programId = key_of_byte 0"
  by (simp add: SystemProgram_programId_def key_of_byte_def)

theorem initialize_validation_witness:
  "(unat (33 :: u8) + unat (67 :: u8) = 100 \<and> (33 :: u8) \<noteq> 0 \<and> (67 :: u8) \<noteq> 0
      \<and> key_of_byte 2 \<noteq> key_of_byte 3
      \<and> \<not> reserved (key_of_byte 2) \<and> \<not> reserved (key_of_byte 3)
      \<and> records empty_ledger (fst (record_address example_host (key_of_byte 1) 7)) = None)
   \<and> (\<exists>L' r. initialize example_host (key_of_byte 1) 33 67 7 (key_of_byte 2) (key_of_byte 3)
                 empty_ledger = Inr L'
             \<and> records L' (fst (record_address example_host (key_of_byte 1) 7)) = Some r
             \<and> share1 r = 33 \<and> share2 r = 67)
   \<and> unat (50 :: u8) + unat (30 :: u8) \<noteq> 100
   \<and> initialize example_host (key_of_byte 1) 50 30 7 (key_of_byte 2) (key_of_byte 3)
        empty_ledger = Inl InvalidPercentages
   \<and> submit example_host (Initialize (key_of_byte 1) 50 30 7 (key_of_byte 2) (key_of_byte 3))
        empty_ledger = (Some InvalidPercentages, empty_ledger)
   \<and> (unat (0 :: u8) + unat (100 :: u8) = 100 \<and> ((0 :: u8) = 0 \<or> (100 :: u8) = 0))
   \<and> initialize example_host (key_of_byte 1) 0 100 7 (key_of_byte 2) (key_of_byte 3)
        empty_ledger = Inl ZeroPercentage
   \<and> (unat (50 :: u8) + unat (50 :: u8) = 100 \<and> (50 :: u8) \<noteq> 0 \<and> key_of_byte 2 = key_of_byte 2)
   \<and> initialize example_host (key_of_byte 1) 50 50 7 (key_of_byte 2) (key_of_byte 2)
        empty_ledger = Inl DuplicateRecipient
   \<and> (SystemProgram_programId \<noteq> key_of_byte 3
        \<and> (reserved SystemProgram_programId \<or> reserved (key_of_byte 3)))
   \<and> initialize example_host (key_of_byte 1) 50 50 7 SystemProgram_programId (key_of_byte 3)
        empty_ledger = Inl InvalidRecipient"
proof -
  have ok: "unat (33 :: u8) + unat (67 :: u8) = 100 \<and> (33 :: u8) \<noteq> 0 \<and> (67 :: u8) \<noteq> 0
      \<and> key_of_byte 2 \<noteq> key_of_byte 3
      \<and> \<not> reserved (key_of_byte 2) \<and> \<not> reserved (key_of_byte 3)
      \<and> records empty_ledger (fst (record_address example_host (key_of_byte 1) 7)) = None"
    by (simp add: empty_ledger_def)
  note good = initialize_validation [of example_host "key_of_byte 1" 33 67 7 "key_of_byte 2"
      "key_of_byte 3" empty_ledger]
  from good ok obtain L' where i: "initialize example_host (key_of_byte 1) 33 67 7
      (key_of_byte 2) (key_of_byte 3) empty_ledger = Inr L'"
    by blast
  with good have "\<exists>r. records L' (fst (record_address example_host (key_of_byte 1) 7)) = Some r
             \<and> share1 r = 33 \<and> share2 r = 67"
    by blast
  with i have c1: "\<exists>L' r. initialize example_host (key_of_byte 1) 33 67 7 (key_of_byte 2)
                 (key_of_byte 3) empty_ledger = Inr L'
             \<and> records L' (fst (record_address example_host (key_of_byte 1) 7)) = Some r
             \<and> share1 r = 33 \<and> share2 r = 67"
    by blast
  have h2: "unat (50 :: u8) + unat (30 :: u8) \<noteq> 100" by simp
  note sum = initialize_validation [of example_host "key_of_byte 1" 50 30 7 "key_of_byte 2"
      "key_of_byte 3" empty_ledger]
  from sum h2 have c2: "initialize example_host (key_of_byte 1) 50 30 7 (key_of_byte 2)
      (key_of_byte 3) empty_ledger = Inl InvalidPercentages"
    by blast
  with sum have c2': "submit example_host (Initialize (key_of_byte 1) 50 30 7 (key_of_byte 2)
      (key_of_byte 3)) empty_ledger = (Some InvalidPercentages, empty_ledger)"
    by blast
  have h3: "unat (0 :: u8) + unat (100 :: u8) = 100 \<and> ((0 :: u8) = 0 \<or> (100 :: u8) = 0)"
    by simp
  from initialize_validation [of example_host "key_of_byte 1" 0 100 7 "key_of_byte 2"
      "key_of_byte 3" empty_ledger] h3
  have c3: "initialize example_host (key_of_byte 1) 0 100 7 (key_of_byte 2) (key_of_byte 3)
        empty_ledger = Inl ZeroPercentage"
    by blast
  have h4: "unat (50 :: u8) + unat (50 :: u8) = 100 \<and> (50 :: u8) \<noteq> 0
      \<and> key_of_byte 2 = key_of_byte 2"
    by simp
  from initialize_validation [of example_host "key_of_byte 1" 50 50 7 "key_of_byte 2"
      "key_of_byte 2" empty_ledger] h4
  have c4: "initialize example_host (key_of_byte 1) 50 50 7 (key_of_byte 2) (key_of_byte 2)
        empty_ledger = Inl DuplicateRecipient"
    by blast
  have h5: "SystemProgram_programId \<noteq> key_of_byte 3
        \<and> (reserved SystemProgram_programId \<or> reserved (key_of_byte 3))"
    by (simp add: system_is_key_0)
  from initialize_validation [of example_host "key_of_byte 1" 50 50 7 SystemProgram_programId
      "key_of_byte 3" empty_ledger] h4 h5
  have c5: "initialize example_host (key_of_byte 1) 50 50 7 SystemProgram_programId
      (key_of_byte 3) empty_ledger = Inl InvalidRecipient"
    by blast
  from ok c1 h2 c2 c2' h3 c3 h4 c4 h5 c5 show ?thesis by blast
qed

lemma initialize_then_cancel:
  assumes "initialize h own s1 s2 seq r1 r2 L = Inr L1"
  shows "\<exists>L2. cancel own (fst (record_address h own seq)) L1 = Inr L2
           \<and> balances L2 = balances L \<and> records L2 = records L"
proof -
  from assms have ok: "unat s1 + unat s2 = 100" "s1 \<noteq> 0" "s2 \<noteq> 0" "r1 \<noteq> r2"
    "\<not> reserved r1" "\<not> reserved r2" "records L (fst (record_address h own seq)) = None"
    by (auto simp: initialize_def allocate_def case_prod_beta split: if_splits)
  from initialize_success [OF ok] assms
  have L1: "L1 = L\<lparr> records := (records L)(fst (record_address h own seq) \<mapsto>
                   \<lparr> owner = own, recipient1_id = r1, recipient2_id = r2,
                     share1 = s1, share2 = s2, executed = False, sequence = seq,
                     createdAt = now h, executedAt = 0,
                     addressSalt = snd (record_address h own seq) \<rparr>),
               deposits := (deposits L)(fst (record_address h own seq) := storage_deposit h),
               balances := (balances L)(own := balances L own - storage_deposit h) \<rparr>"
    by simp
  have "cancel own (fst (record_address h own seq)) L1
          = Inr (deallocate (fst (record_address h own seq)) own L1)"
    by (simp add: cancel_def L1)
  moreover have "balances (deallocate (fst (record_address h own seq)) own L1) = balances L"
    by (auto simp: deallocate_def L1)
  moreover have "records (deallocate (fst (record_address h own seq)) own L1) = records L"
    using ok(7) by (auto simp: deallocate_def L1)
  ultimately show ?thesis by simp
qed

text \<open>
  C8. For an existing record and its owner as caller, Cancel succeeds if and only if the
  record is not executed and fails with \<open>AlreadyExecuted\<close> otherwise; Close succeeds if and
  only if the record is executed and fails with \<open>NotExecuted\<close> otherwise. A successful
  Cancel or Close destroys the record and adds the storage deposit held for its address to
  the owner's balance, leaving every other balance as it was; that deposit is the one
  Initialize took, so cancelling a record just created restores every balance.
\<close>

theorem cancel_and_close:
  "(records L addr = Some r \<and> caller = owner r \<longrightarrow>
       ((\<exists>L'. cancel caller addr L = Inr L') \<longleftrightarrow> \<not> executed r)
     \<and> (executed r \<longrightarrow> cancel caller addr L = Inl AlreadyExecuted)
     \<and> ((\<exists>L'. close caller addr L = Inr L') \<longleftrightarrow> executed r)
     \<and> (\<not> executed r \<longrightarrow> close caller addr L = Inl NotExecuted)
     \<and> (\<forall>L'. cancel caller addr L = Inr L' \<or> close caller addr L = Inr L' \<longrightarrow>
            records L' addr = None
          \<and> deposits L' addr = 0
          \<and> balances L' (owner r) = balances L (owner r) + deposits L addr
          \<and> (\<forall>k. k \<noteq> owner r \<longrightarrow> balances L' k = balances L k)))
   \<and> (initialize h own s1 s2 seq q1 q2 L = Inr L1 \<longrightarrow>
       (\<exists>L2. cancel own (fst (record_address h own seq)) L1 = Inr L2
           \<and> balances L2 = balances L \<and> records L2 = records L))"
proof (intro conjI)
  show "records L addr = Some r \<and> caller = owner r \<longrightarrow>
       ((\<exists>L'. cancel caller addr L = Inr L') \<longleftrightarrow> \<not> executed r)
     \<and> (executed r \<longrightarrow> cancel caller addr L = Inl AlreadyExecuted)
     \<and> ((\<exists>L'. close caller addr L = Inr L') \<longleftrightarrow> executed r)
     \<and> (\<not> executed r \<longrightarrow> close caller addr L = Inl NotExecuted)
     \<and> (\<forall>L'. cancel caller addr L = Inr L' \<or> close caller addr L = Inr L' \<longrightarrow>
            records L' addr = None
          \<and> deposits L' addr = 0
          \<and> balances L' (owner r) = balances L (owner r) + deposits L addr
          \<and> (\<forall>k. k \<noteq> owner r \<longrightarrow> balances L' k = balances L k))"
    by (auto simp: cancel_def close_def deallocate_def)
  show "initialize h own s1 s2 seq q1 q2 L = Inr L1 \<longrightarrow>
       (\<exists>L2. cancel own (fst (record_address h own seq)) L1 = Inr L2
           \<and> balances L2 = balances L \<and> records L2 = records L)"
    by (intro impI initialize_then_cancel)
qed

lemma initialize_example:
  "\<exists>L'. initialize example_host (key_of_byte 1) 33 67 7 (key_of_byte 2) (key_of_byte 3)
          empty_ledger = Inr L'"
  by (simp add: initialize_success empty_ledger_def)

lemma cancel_created:
  "\<exists>L'. cancel (key_of_byte 1) example_address created_ledger = Inr L'"
  by (simp add: cancel_def created_lookup example_record_def)

lemma close_executed:
  "\<exists>L'. close (key_of_byte 1) example_address executed_ledger = Inr L'"
  by (simp add: close_def executed_lookup example_record_def)

theorem cancel_and_close_witness:
  "(records created_ledger example_address = Some example_record
      \<and> key_of_byte 1 = owner example_record \<and> \<not> executed example_record)
   \<and> (\<exists>L'. cancel (key_of_byte 1) example_address created_ledger = Inr L'
          \<and> records L' example_address = None
          \<and> balances L' (key_of_byte 1) = 5000000000)
   \<and> close (key_of_byte 1) example_address created_ledger = Inl NotExecuted
   \<and> (records executed_ledger example_address
         = Some (example_record\<lparr>executed := True, executedAt := 1700000100\<rparr>)
      \<and> key_of_byte 1 = owner (example_record\<lparr>executed := True, executedAt := 1700000100\<rparr>)
      \<and> executed (example_record\<lparr>executed := True, executedAt := 1700000100\<rparr>))
   \<and> cancel (key_of_byte 1) example_address executed_ledger = Inl AlreadyExecuted
   \<and> (\<exists>L'. close (key_of_byte 1) example_address executed_ledger = Inr L'
          \<and> records L' example_address = None
          \<and> balances L' (key_of_byte 1) = 4999999000)
   \<and> (\<exists>L1 L2. initialize example_host (key_of_byte 1) 33 67 7 (key_of_byte 2) (key_of_byte 3)
                  empty_ledger = Inr L1
          \<and> cancel (key_of_byte 1) (fst (record_address example_host (key_of_byte 1) 7)) L1
               = Inr L2
          \<and> balances L2 = balances empty_ledger \<and> records L2 = records empty_ledger)"
proof -
  have h1: "records created_ledger example_address = Some example_record
      \<and> key_of_byte 1 = owner example_record \<and> \<not> executed example_record"
    by (simp add: created_lookup example_record_def)
  have h2: "records executed_ledger example_address
         = Some (example_record\<lparr>executed := True, executedAt := 1700000100\<rparr>)
      \<and> key_of_byte 1 = owner (example_record\<lparr>executed := True, executedAt := 1700000100\<rparr>)
      \<and> executed (example_record\<lparr>executed := True, executedAt := 1700000100\<rparr>)"
    by (simp add: executed_lookup example_record_def)
  obtain L0 where init: "initialize example_host (key_of_byte 1) 33 67 7 (key_of_byte 2)
      (key_of_byte 3) empty_ledger = Inr L0"
    using initialize_example by blast
  from cancel_and_close [of empty_ledger example_address example_record "key_of_byte 1"
      example_host "key_of_byte 1" 33 67 7 "key_of_byte 2" "key_of_byte 3" L0] init
  have c5: "\<exists>L2. cancel (key_of_byte 1) (fst (record_address example_host (key_of_byte 1) 7)) L0
               = Inr L2
          \<and> balances L2 = balances empty_ledger \<and> records L2 = records empty_ledger"
    by blast
  note created = cancel_and_close [of created_ledger example_address example_record
      "key_of_byte 1"]
  note closed = cancel_and_close [of executed_ledger example_address
      "example_record\<lparr>executed := True, executedAt := 1700000100\<rparr>" "key_of_byte 1"]
  from created h1 obtain L1 where c: "cancel (key_of_byte 1) example_address created_ledger = Inr L1"
    by blast
  with created h1 have "records L1 example_address = None
      \<and> balances L1 (owner example_record)
          = balances created_ledger (owner example_record) + deposits created_ledger example_address"
    by blast
  then have c1: "records L1 example_address = None \<and> balances L1 (key_of_byte 1) = 5000000000"
    by (simp add: example_record_def created_ledger_def)
  from created h1 have c2: "close (key_of_byte 1) example_address created_ledger = Inl NotExecuted"
    by blast
  from closed h2 have c3: "cancel (key_of_byte 1) example_address executed_ledger = Inl AlreadyExecuted"
    by blast
  from closed h2 obtain L2 where d: "close (key_of_byte 1) example_address executed_ledger = Inr L2"
    by blast
  with closed h2 have "records L2 example_address = None
      \<and> balances L2 (owner (example_record\<lparr>executed := True, executedAt := 1700000100\<rparr>))
          = balances executed_ledger (owner (example_record\<lparr>executed := True, executedAt := 1700000100\<rparr>))
            + deposits executed_ledger example_address"
    by blast
  then have c4: "records L2 example_address = None \<and> balances L2 (key_of_byte 1) = 4999999000"
    by (simp add: example_record_def executed_ledger_def)
  from h1 c c1 c2 h2 c3 d c4 init c5 show ?thesis by blast
qed

section \<open>Properties of the split form\<close>

lemma follows_confirmed_mono:
  "follows_confirmed n m log \<Longrightarrow> m \<le> m' \<Longrightarrow> follows_confirmed n m' log"
  by (auto simp: follows_confirmed_def split: option.splits)

lemma follows_confirmed_Execute:
  "follows_confirmed n m (Execute_tx s k e c # log) = follows_confirmed n m log"
  by (simp add: follows_confirmed_def)

lemma executes_follow_mono:
  "executes_follow m log \<Longrightarrow> m \<le> m' \<Longrightarrow> executes_follow m' log"
  by (induction m log rule: executes_follow.induct) (auto intro: follows_confirmed_mono)

lemma initialize_address:
  "createInitializeSplitInstruction f s r1 r2 p1 p2 n = Inr i
     \<Longrightarrow> initialize_splitConfigPDA f s n = Inr (pubkey (keys i ! 0))"
  by (auto simp: createInitializeSplitInstruction_def split: sum.splits)

lemma execute_address:
  "createExecuteSplitInstruction f s r1 r2 a n = Inr e
     \<Longrightarrow> execute_splitConfigPDA f s n = Inr (pubkey (keys e ! 0))"
  by (auto simp: createExecuteSplitInstruction_def split: sum.splits)

lemma initializeSplit_cases:
  assumes "initializeSplit P w out st = (st', out')"
  shows "(out' = [] \<and> step st' = step st \<and> nonce st' = nonce st
            \<and> percentage1 st' = percentage1 st \<and> percentage2 st' = percentage2 st)
       \<or> (\<exists>k r1 r2 i. publicKey w = Some k
            \<and> createInitializeSplitInstruction (findProgramAddressSync P) k r1 r2
                 (percentage1 st) (percentage2 st) (nonce st) = Inr i
            \<and> percentage1 st' = percentage1 st \<and> percentage2 st' = percentage2 st
            \<and> ((out' = [Initialize_tx k (nonce st) i False]
                  \<and> step st' = step st \<and> nonce st' = nonce st)
               \<or> (out' = [Initialize_tx k (nonce st) i True]
                  \<and> step st' = Step_execute \<and> nonce st' = nonce st + 1
                  \<and> activeNonce st' = nonce st)))"
  using assms
  by (auto simp: initializeSplit_def Let_def split: option.splits if_splits sum.splits outcome.splits)

lemma executeSplit_cases:
  assumes "executeSplit P w out st = (st', out')"
  shows "step st' = step st \<and> nonce st' = nonce st \<and> activeNonce st' = activeNonce st
       \<and> percentage1 st' = percentage1 st \<and> percentage2 st' = percentage2 st
       \<and> (out' = []
          \<or> (\<exists>k r1 r2 a e c. createExecuteSplitInstruction (findProgramAddressSync P) k r1 r2 a
                   (activeNonce st) = Inr e
                \<and> out' = [Execute_tx k (activeNonce st) e c]))"
  using assms
  by (auto simp: executeSplit_def Let_def split: option.splits if_splits sum.splits outcome.splits)


lemma handle_nonce_inv:
  assumes inv: "nonce_inv (findProgramAddressSync P) st log"
    and en: "enabled ev st"
    and h: "handle P ev st = (st', out')"
  shows "nonce_inv (findProgramAddressSync P) st' (out' @ log)"
proof (cases ev)
  case (Click_initializeSplit w out)
  with en have cfg: "step st = Step_config" by simp
  from Click_initializeSplit h have "initializeSplit P w out st = (st', out')" by simp
  from initializeSplit_cases [OF this] show ?thesis
  proof (elim disjE exE conjE)
    assume "out' = []" "step st' = step st" "nonce st' = nonce st"
    with inv cfg show ?thesis by (simp add: nonce_inv_def)
  next
    fix k r1 r2 i
    assume b: "createInitializeSplitInstruction (findProgramAddressSync P) k r1 r2
                 (percentage1 st) (percentage2 st) (nonce st) = Inr i"
      and o: "out' = [Initialize_tx k (nonce st) i False]"
      and s: "step st' = step st" "nonce st' = nonce st"
    from b have "derived_address (findProgramAddressSync P) (Initialize_tx k (nonce st) i False)"
      by (simp add: initialize_address)
    with inv cfg o s show ?thesis by (simp add: nonce_inv_def)
  next
    fix k r1 r2 i
    assume b: "createInitializeSplitInstruction (findProgramAddressSync P) k r1 r2
                 (percentage1 st) (percentage2 st) (nonce st) = Inr i"
      and o: "out' = [Initialize_tx k (nonce st) i True]"
      and s: "step st' = Step_execute" "nonce st' = nonce st + 1" "activeNonce st' = nonce st"
    from b have "derived_address (findProgramAddressSync P) (Initialize_tx k (nonce st) i True)"
      by (simp add: initialize_address)
    moreover from inv have "executes_follow (nonce st + 1) log"
      by (auto simp: nonce_inv_def intro: executes_follow_mono)
    ultimately show ?thesis
      using inv o s by (simp add: nonce_inv_def follows_confirmed_def)
  qed
next
  case (Click_executeSplit w out)
  with en have ex: "step st = Step_execute" by simp
  from Click_executeSplit h have "executeSplit P w out st = (st', out')" by simp
  from executeSplit_cases [OF this]
  have same: "step st' = step st" "nonce st' = nonce st" "activeNonce st' = activeNonce st"
    and o: "out' = [] \<or> (\<exists>k r1 r2 a e c.
               createExecuteSplitInstruction (findProgramAddressSync P) k r1 r2 a
                   (activeNonce st) = Inr e
             \<and> out' = [Execute_tx k (activeNonce st) e c])"
    by auto
  from o show ?thesis
  proof
    assume "out' = []"
    with inv same show ?thesis by (simp add: nonce_inv_def)
  next
    assume "\<exists>k r1 r2 a e c.
               createExecuteSplitInstruction (findProgramAddressSync P) k r1 r2 a
                   (activeNonce st) = Inr e
             \<and> out' = [Execute_tx k (activeNonce st) e c]"
    then obtain k r1 r2 a e c
      where b: "createExecuteSplitInstruction (findProgramAddressSync P) k r1 r2 a
                   (activeNonce st) = Inr e"
        and o': "out' = [Execute_tx k (activeNonce st) e c]"
      by blast
    from b have "derived_address (findProgramAddressSync P) (Execute_tx k (activeNonce st) e c)"
      by (simp add: execute_address)
    with inv ex same o' show ?thesis
      by (simp add: nonce_inv_def follows_confirmed_Execute)
  qed
next
  case Click_resetForm
  with h have st': "st' = resetForm st" and o: "out' = []" by auto
  from inv have "executes_follow (nonce st + 1) log"
    by (auto simp: nonce_inv_def intro: executes_follow_mono)
  with inv st' o show ?thesis by (simp add: nonce_inv_def resetForm_def)
next
  case (Slider_onChange val)
  with inv h show ?thesis by (auto simp: nonce_inv_def slider_onChange_def)
next
  case (Recipient1_onChange v)
  with inv h show ?thesis by (auto simp: nonce_inv_def)
next
  case (Recipient2_onChange v)
  with inv h show ?thesis by (auto simp: nonce_inv_def)
next
  case (Amount_onChange v)
  with inv h show ?thesis by (auto simp: nonce_inv_def)
qed

lemma session_nonce_inv:
  "nonce_inv (findProgramAddressSync P) st log \<Longrightarrow> session P st log es = Some (st', log')
     \<Longrightarrow> nonce_inv (findProgramAddressSync P) st' log'"
proof (induction es arbitrary: st log)
  case Nil
  then show ?case by simp
next
  case (Cons ev es)
  from Cons.prems(2) have en: "enabled ev st"
    by (simp split: if_splits)
  obtain st1 out1 where h: "handle P ev st = (st1, out1)"
    by (cases "handle P ev st")
  with Cons.prems(2) en have run: "session P st1 (out1 @ log) es = Some (st', log')"
    by simp
  from Cons.prems(1) en h have "nonce_inv (findProgramAddressSync P) st1 (out1 @ log)"
    by (rule handle_nonce_inv)
  then show ?case using run by (rule Cons.IH)
qed

lemma executes_follow_split:
  "executes_follow m (pre @ Execute_tx s n e c # rest) \<Longrightarrow> follows_confirmed n m rest"
proof (induction pre)
  case Nil
  then show ?case by simp
next
  case (Cons x pre)
  then show ?case by (cases x) auto
qed

lemma last_initialize_mem:
  "last_initialize log = Some (s, n, i, c) \<Longrightarrow> Initialize_tx s n i c \<in> set log"
proof (induction log)
  case Nil
  then show ?case by simp
next
  case (Cons x log)
  then show ?case by (cases x) auto
qed

lemma initial_nonce_inv: "nonce_inv f (initial_state n0 a0) []"
  by (simp add: nonce_inv_def initial_state_def)

text \<open>
  C9 (as the form behaves). \<^verbatim>\<open>initializeSplit\<close> stores the nonce it submits in
  \<^verbatim>\<open>activeNonce\<close> before the counter is incremented, and \<^verbatim>\<open>executeSplit\<close> derives the
  record address from \<^verbatim>\<open>activeNonce\<close>. So in every session, each Execute transaction is
  built with the nonce of the latest Initialize transaction before it, that Initialize
  was confirmed, and the nonce counter has advanced past it; the Execute targets the
  address which that Initialize created whenever the wallet connected at the Execute is
  the one connected at the Initialize.
\<close>

theorem execute_targets_initialized_record:
  assumes run: "session P (initial_state n0 a0) [] es = Some (st, log)"
    and split: "log = pre @ Execute_tx se ne e c # rest"
  shows "\<exists>si i. last_initialize rest = Some (si, ne, i, True)
           \<and> ne < nonce st
           \<and> initialize_splitConfigPDA (findProgramAddressSync P) si ne = Inr (pubkey (keys i ! 0))
           \<and> execute_splitConfigPDA (findProgramAddressSync P) se ne = Inr (pubkey (keys e ! 0))
           \<and> (se = si \<longrightarrow> pubkey (keys e ! 0) = pubkey (keys i ! 0))"
proof -
  from initial_nonce_inv run have inv: "nonce_inv (findProgramAddressSync P) st log"
    by (rule session_nonce_inv)
  then have "executes_follow (nonce st) log" by (simp add: nonce_inv_def)
  with split have "follows_confirmed ne (nonce st) rest"
    by (auto dest: executes_follow_split)
  then obtain si i where li: "last_initialize rest = Some (si, ne, i, True)"
    and lt: "ne < nonce st"
    by (auto simp: follows_confirmed_def split: option.splits)
  from li have "Initialize_tx si ne i True \<in> set rest" by (rule last_initialize_mem)
  with split have mem: "Initialize_tx si ne i True \<in> set log" by simp
  from inv have all: "list_all (derived_address (findProgramAddressSync P)) log"
    by (simp add: nonce_inv_def)
  from all mem have ai: "derived_address (findProgramAddressSync P) (Initialize_tx si ne i True)"
    unfolding list_all_iff by (rule bspec)
  from split have "Execute_tx se ne e c \<in> set log" by simp
  with all have ae: "derived_address (findProgramAddressSync P) (Execute_tx se ne e c)"
    unfolding list_all_iff by (rule bspec)
  have eq: "initialize_splitConfigPDA (findProgramAddressSync P) si ne
              = execute_splitConfigPDA (findProgramAddressSync P) si ne"
    by (simp add: initialize_splitConfigPDA_def execute_splitConfigPDA_def)
  from ai ae eq have "se = si \<longrightarrow> pubkey (keys e ! 0) = pubkey (keys i ! 0)"
    by auto
  with li lt ai ae show ?thesis by auto
qed


lemma trim_B: "trim ''BBBBBBBBBBBBBBBBBBBBBBBBBBBBBBBB'' = ''BBBBBBBBBBBBBBBBBBBBBBBBBBBBBBBB''"
  by (simp add: trim_def is_space_def)

lemma trim_C: "trim ''CCCCCCCCCCCCCCCCCCCCCCCCCCCCCCCC'' = ''CCCCCCCCCCCCCCCCCCCCCCCCCCCCCCCC''"
  by (simp add: trim_def is_space_def)

lemma initialize_B_C:
  "\<exists>i. createInitializeSplitInstruction seeds_find (key_of_byte 1)
          (PublicKey (Buffer_from_string ''BBBBBBBBBBBBBBBBBBBBBBBBBBBBBBBB''))
          (PublicKey (Buffer_from_string ''CCCCCCCCCCCCCCCCCCCCCCCCCCCCCCCC'')) p1 p2 5 = Inr i
        \<and> pubkey (keys i ! 0) = PublicKey (Buffer_from_string ''split_config'' @ replicate 32 1
                                      @ [5, 0, 0, 0, 0, 0, 0, 0] @ toBuffer PROGRAM_ID)"
  by (simp add: createInitializeSplitInstruction_def initialize_splitConfigPDA_def
        u64ToLeBytes_small seeds_find_def key_of_byte_def toArrayLE_numeral)

lemma execute_B_C:
  "\<exists>e. createExecuteSplitInstruction seeds_find (key_of_byte b)
          (PublicKey (Buffer_from_string ''BBBBBBBBBBBBBBBBBBBBBBBBBBBBBBBB''))
          (PublicKey (Buffer_from_string ''CCCCCCCCCCCCCCCCCCCCCCCCCCCCCCCC'')) 100000000 5 = Inr e
        \<and> pubkey (keys e ! 0) = PublicKey (Buffer_from_string ''split_config'' @ replicate 32 b
                                      @ [5, 0, 0, 0, 0, 0, 0, 0] @ toBuffer PROGRAM_ID)"
  by (simp add: createExecuteSplitInstruction_def execute_splitConfigPDA_def
        u64ToLeBytes_small seeds_find_def key_of_byte_def toArrayLE_numeral BN_toArrayLike_le_def)

lemma example_session_run:
  "\<exists>st e i. session example_platform (initial_state 5 5) [] example_session
       = Some (st, [Execute_tx (key_of_byte 1) 5 e True, Initialize_tx (key_of_byte 1) 5 i True])"
proof -
  obtain i where i: "createInitializeSplitInstruction seeds_find (key_of_byte 1)
          (PublicKey (Buffer_from_string ''BBBBBBBBBBBBBBBBBBBBBBBBBBBBBBBB''))
          (PublicKey (Buffer_from_string ''CCCCCCCCCCCCCCCCCCCCCCCCCCCCCCCC'')) 33 67 5 = Inr i"
    using initialize_B_C by blast
  obtain e where e: "createExecuteSplitInstruction seeds_find (key_of_byte 1)
          (PublicKey (Buffer_from_string ''BBBBBBBBBBBBBBBBBBBBBBBBBBBBBBBB''))
          (PublicKey (Buffer_from_string ''CCCCCCCCCCCCCCCCCCCCCCCCCCCCCCCC'')) 100000000 5 = Inr e"
    using execute_B_C by blast
  show ?thesis
    by (simp add: example_session_def example_platform_def example_wallet_def initial_state_def
          initializeSplit_def executeSplit_def slider_onChange_def trim_B trim_C i e)
qed

theorem execute_targets_initialized_record_witness:
  "\<exists>st e i. session example_platform (initial_state 5 5) [] example_session
       = Some (st, [] @ Execute_tx (key_of_byte 1) 5 e True
                       # [Initialize_tx (key_of_byte 1) 5 i True])
     \<and> last_initialize [Initialize_tx (key_of_byte 1) 5 i True]
          = Some (key_of_byte 1, 5, i, True)
     \<and> 5 < nonce st
     \<and> pubkey (keys e ! 0) = pubkey (keys i ! 0)"
proof -
  from example_session_run obtain st e i
    where run: "session example_platform (initial_state 5 5) [] example_session
       = Some (st, [Execute_tx (key_of_byte 1) 5 e True, Initialize_tx (key_of_byte 1) 5 i True])"
    by blast
  have split: "[Execute_tx (key_of_byte 1) 5 e True, Initialize_tx (key_of_byte 1) 5 i True]
      = [] @ Execute_tx (key_of_byte 1) 5 e True # [Initialize_tx (key_of_byte 1) 5 i True]"
    by simp
  from execute_targets_initialized_record [OF run split]
  have "5 < nonce st \<and> pubkey (keys e ! 0) = pubkey (keys i ! 0)"
    by auto
  with run show ?thesis by auto
qed

text \<open>
  C9 as stated, for every session, fails when the wallet changes between the two clicks:
  the Execute is built for the address derived from the new wallet and the saved nonce,
  which is not the address that the Initialize created.
\<close>

theorem wallet_switch_counterexample:
  "map_option (\<lambda>r. map target (snd r))
      (session example_platform (initial_state 5 5) [] wallet_switch_session)
     = Some [(key_of_byte 9, 5,
              PublicKey (Buffer_from_string ''split_config'' @ replicate 32 9
                           @ [5, 0, 0, 0, 0, 0, 0, 0] @ toBuffer PROGRAM_ID)),
             (key_of_byte 1, 5,
              PublicKey (Buffer_from_string ''split_config'' @ replicate 32 1
                           @ [5, 0, 0, 0, 0, 0, 0, 0] @ toBuffer PROGRAM_ID))]
   \<and> PublicKey (Buffer_from_string ''split_config'' @ replicate 32 9
                           @ [5, 0, 0, 0, 0, 0, 0, 0] @ toBuffer PROGRAM_ID)
     \<noteq> PublicKey (Buffer_from_string ''split_config'' @ replicate 32 1
                           @ [5, 0, 0, 0, 0, 0, 0, 0] @ toBuffer PROGRAM_ID)"
proof -
  obtain i where i: "createInitializeSplitInstruction seeds_find (key_of_byte 1)
          (PublicKey (Buffer_from_string ''BBBBBBBBBBBBBBBBBBBBBBBBBBBBBBBB''))
          (PublicKey (Buffer_from_string ''CCCCCCCCCCCCCCCCCCCCCCCCCCCCCCCC'')) 60 40 5 = Inr i"
    and ia: "pubkey (keys i ! 0) = PublicKey (Buffer_from_string ''split_config'' @ replicate 32 1
                                      @ [5, 0, 0, 0, 0, 0, 0, 0] @ toBuffer PROGRAM_ID)"
    using initialize_B_C by blast
  obtain e where e: "createExecuteSplitInstruction seeds_find (key_of_byte 9)
          (PublicKey (Buffer_from_string ''BBBBBBBBBBBBBBBBBBBBBBBBBBBBBBBB''))
          (PublicKey (Buffer_from_string ''CCCCCCCCCCCCCCCCCCCCCCCCCCCCCCCC'')) 100000000 5 = Inr e"
    and ea: "pubkey (keys e ! 0) = PublicKey (Buffer_from_string ''split_config'' @ replicate 32 9
                                      @ [5, 0, 0, 0, 0, 0, 0, 0] @ toBuffer PROGRAM_ID)"
    using execute_B_C by blast
  have "map_option (\<lambda>r. map target (snd r))
      (session example_platform (initial_state 5 5) [] wallet_switch_session)
     = Some [(key_of_byte 9, 5, pubkey (keys e ! 0)), (key_of_byte 1, 5, pubkey (keys i ! 0))]"
    by (simp add: wallet_switch_session_def example_platform_def example_wallet_def
          initial_state_def initializeSplit_def executeSplit_def trim_B trim_C i e)
  moreover have "replicate 32 (9::byte) \<noteq> replicate 32 1"
    by simp
  ultimately show ?thesis
    by (simp add: ia ea)
qed


lemma initialize_data_of:
  assumes "createInitializeSplitInstruction f s r1 r2 p1 p2 n = Inr i"
  shows "data i = INITIALIZE_SPLIT @ [of_int p1, of_int p2] @ toArrayLE 8 n"
  using assms
  by (auto simp: createInitializeSplitInstruction_def u64ToLeBytes_def BN_of_number_def
        BN_toArrayLike_le_def Buffer_from_def split: sum.splits if_splits)

lemma initialize_valid_shares:
  assumes b: "createInitializeSplitInstruction f s r1 r2 p1 p2 n = Inr i"
    and p: "1 \<le> p1" "p1 \<le> 99" "p2 = 100 - p1"
  shows "valid_shares (Initialize_tx s n i c)"
proof -
  from b have d: "data i = INITIALIZE_SPLIT @ [of_int p1, of_int p2] @ toArrayLE 8 n"
    by (rule initialize_data_of)
  have l: "length (data i) = 18"
    by (simp add: d length_INITIALIZE_SPLIT length_toArrayLE)
  from p have r: "0 \<le> p1" "p1 < 256" "0 \<le> p2" "p2 < 256" by auto
  have b8: "uint (data i ! 8) = p1"
    using r by (simp add: d nth_append length_INITIALIZE_SPLIT uint_word_of_int)
  have b9: "uint (data i ! 9) = p2"
    using r by (simp add: d nth_append length_INITIALIZE_SPLIT uint_word_of_int)
  from l b8 b9 p show ?thesis by simp
qed

lemma handle_share_inv:
  assumes inv: "share_inv st" and en: "enabled ev st" and h: "handle P ev st = (st', out')"
  shows "share_inv st' \<and> list_all valid_shares out'"
proof (cases ev)
  case (Click_initializeSplit w out)
  with h have "initializeSplit P w out st = (st', out')" by simp
  from initializeSplit_cases [OF this] show ?thesis
  proof (elim disjE exE conjE)
    assume "out' = []" "percentage1 st' = percentage1 st" "percentage2 st' = percentage2 st"
    with inv show ?thesis by (simp add: share_inv_def)
  next
    fix k r1 r2 i
    assume b: "createInitializeSplitInstruction (findProgramAddressSync P) k r1 r2
                 (percentage1 st) (percentage2 st) (nonce st) = Inr i"
      and o: "out' = [Initialize_tx k (nonce st) i False]"
      and s: "percentage1 st' = percentage1 st" "percentage2 st' = percentage2 st"
    from inv have "valid_shares (Initialize_tx k (nonce st) i False)"
      unfolding share_inv_def by (intro initialize_valid_shares [OF b]) auto
    with inv o s show ?thesis by (simp add: share_inv_def)
  next
    fix k r1 r2 i
    assume b: "createInitializeSplitInstruction (findProgramAddressSync P) k r1 r2
                 (percentage1 st) (percentage2 st) (nonce st) = Inr i"
      and o: "out' = [Initialize_tx k (nonce st) i True]"
      and s: "percentage1 st' = percentage1 st" "percentage2 st' = percentage2 st"
    from inv have "valid_shares (Initialize_tx k (nonce st) i True)"
      unfolding share_inv_def by (intro initialize_valid_shares [OF b]) auto
    with inv o s show ?thesis by (simp add: share_inv_def)
  qed
next
  case (Click_executeSplit w out)
  with h have "executeSplit P w out st = (st', out')" by simp
  from executeSplit_cases [OF this] inv show ?thesis
    by (auto simp: share_inv_def)
next
  case Click_resetForm
  with h show ?thesis by (auto simp: share_inv_def resetForm_def)
next
  case (Slider_onChange val)
  with en h show ?thesis by (auto simp: share_inv_def slider_onChange_def)
next
  case (Recipient1_onChange v)
  with inv h show ?thesis by (auto simp: share_inv_def)
next
  case (Recipient2_onChange v)
  with inv h show ?thesis by (auto simp: share_inv_def)
next
  case (Amount_onChange v)
  with inv h show ?thesis by (auto simp: share_inv_def)
qed

lemma session_share_inv:
  "share_inv st \<Longrightarrow> list_all valid_shares log \<Longrightarrow> session P st log es = Some (st', log')
     \<Longrightarrow> share_inv st' \<and> list_all valid_shares log'"
proof (induction es arbitrary: st log)
  case Nil
  then show ?case by simp
next
  case (Cons ev es)
  from Cons.prems(3) have en: "enabled ev st"
    by (simp split: if_splits)
  obtain st1 out1 where h: "handle P ev st = (st1, out1)"
    by (cases "handle P ev st")
  with Cons.prems(3) en have run: "session P st1 (out1 @ log) es = Some (st', log')"
    by simp
  from Cons.prems(1) en h have "share_inv st1 \<and> list_all valid_shares out1"
    by (rule handle_share_inv)
  with Cons.prems(2) have "share_inv st1" "list_all valid_shares (out1 @ log)"
    by simp_all
  then show ?case using run by (rule Cons.IH)
qed

lemma initial_share_inv: "share_inv (initial_state n0 a0)"
  by (simp add: share_inv_def initial_state_def)

text \<open>
  C10. Every change of the slider sets \<^verbatim>\<open>percentage1\<close> to an integer from 1 to 99 and
  \<^verbatim>\<open>percentage2\<close> to \<open>100 - percentage1\<close>; the Initialize button cannot fire while
  \<open>percentage1 + percentage2\<close> is not 100; and in every session that starts from the
  defaults 60 and 40, every Initialize instruction that leaves the client carries two
  positive share bytes that sum to 100.
\<close>

theorem ui_initialize_shares_valid:
  "(enabled (Slider_onChange v) st \<longrightarrow>
       1 \<le> percentage1 (slider_onChange v st) \<and> percentage1 (slider_onChange v st) \<le> 99
     \<and> percentage2 (slider_onChange v st) = 100 - percentage1 (slider_onChange v st))
   \<and> (percentage1 st + percentage2 st \<noteq> 100 \<longrightarrow> \<not> enabled (Click_initializeSplit w out) st)
   \<and> (session P (initial_state n0 a0) [] es = Some (st', log)
        \<and> Initialize_tx s n i c \<in> set log \<longrightarrow>
          length (data i) = 18 \<and> 0 < uint (data i ! 8) \<and> 0 < uint (data i ! 9)
        \<and> uint (data i ! 8) + uint (data i ! 9) = 100)"
proof (intro conjI impI)
  assume "enabled (Slider_onChange v) st"
  then show "1 \<le> percentage1 (slider_onChange v st)"
    and "percentage1 (slider_onChange v st) \<le> 99"
    and "percentage2 (slider_onChange v st) = 100 - percentage1 (slider_onChange v st)"
    by (simp_all add: slider_onChange_def)
next
  assume "percentage1 st + percentage2 st \<noteq> 100"
  then show "\<not> enabled (Click_initializeSplit w out) st" by simp
next
  assume a: "session P (initial_state n0 a0) [] es = Some (st', log)
        \<and> Initialize_tx s n i c \<in> set log"
  then have run: "session P (initial_state n0 a0) [] es = Some (st', log)" by simp
  from session_share_inv [OF initial_share_inv _ run] have "list_all valid_shares log"
    by simp
  with a have "valid_shares (Initialize_tx s n i c)"
    by (auto simp: list_all_iff)
  then show "length (data i) = 18" and "0 < uint (data i ! 8)" and "0 < uint (data i ! 9)"
    and "uint (data i ! 8) + uint (data i ! 9) = 100"
    by simp_all
qed

theorem ui_initialize_shares_valid_witness:
  "enabled (Slider_onChange 33) (initial_state 5 5)
   \<and> percentage1 (slider_onChange 33 (initial_state 5 5)) = 33
   \<and> percentage2 (slider_onChange 33 (initial_state 5 5)) = 67
   \<and> percentage1 ((initial_state 5 5) \<lparr>percentage2 := 5\<rparr>)
       + percentage2 ((initial_state 5 5) \<lparr>percentage2 := 5\<rparr>) \<noteq> 100
   \<and> \<not> enabled (Click_initializeSplit (example_wallet 1) Confirmed)
          ((initial_state 5 5) \<lparr>percentage2 := 5\<rparr>)
   \<and> (\<exists>st e i. session example_platform (initial_state 5 5) [] example_session
          = Some (st, [Execute_tx (key_of_byte 1) 5 e True, Initialize_tx (key_of_byte 1) 5 i True])
        \<and> Initialize_tx (key_of_byte 1) 5 i True
            \<in> set [Execute_tx (key_of_byte 1) 5 e True, Initialize_tx (key_of_byte 1) 5 i True]
        \<and> length (data i) = 18 \<and> 0 < uint (data i ! 8) \<and> 0 < uint (data i ! 9)
        \<and> uint (data i ! 8) + uint (data i ! 9) = 100)"
proof -
  from example_session_run obtain st e i
    where run: "session example_platform (initial_state 5 5) [] example_session
       = Some (st, [Execute_tx (key_of_byte 1) 5 e True, Initialize_tx (key_of_byte 1) 5 i True])"
    by blast
  have mem: "Initialize_tx (key_of_byte 1) 5 i True
            \<in> set [Execute_tx (key_of_byte 1) 5 e True, Initialize_tx (key_of_byte 1) 5 i True]"
    by simp
  have en: "enabled (Slider_onChange 33) (initial_state 5 5)" by simp
  have ne: "percentage1 ((initial_state 5 5) \<lparr>percentage2 := 5\<rparr>)
       + percentage2 ((initial_state 5 5) \<lparr>percentage2 := 5\<rparr>) \<noteq> 100"
    by (simp add: initial_state_def)
  note a = ui_initialize_shares_valid [of 33 "initial_state 5 5" "example_wallet 1" Confirmed
      example_platform 5 5 example_session st
      "[Execute_tx (key_of_byte 1) 5 e True, Initialize_tx (key_of_byte 1) 5 i True]"
      "key_of_byte 1" 5 i True]
  note b = ui_initialize_shares_valid [of 33
      "(initial_state 5 5) \<lparr>percentage2 := 5\<rparr>" "example_wallet 1" Confirmed
      example_platform 5 5 example_session st
      "[Execute_tx (key_of_byte 1) 5 e True, Initialize_tx (key_of_byte 1) 5 i True]"
      "key_of_byte 1" 5 i True]
  from a en have "1 \<le> percentage1 (slider_onChange 33 (initial_state 5 5))
      \<and> percentage2 (slider_onChange 33 (initial_state 5 5))
          = 100 - percentage1 (slider_onChange 33 (initial_state 5 5))"
    by blast
  then have s1: "percentage1 (slider_onChange 33 (initial_state 5 5)) = 33
      \<and> percentage2 (slider_onChange 33 (initial_state 5 5)) = 67"
    by (simp add: slider_onChange_def initial_state_def)
  from b ne have s2: "\<not> enabled (Click_initializeSplit (example_wallet 1) Confirmed)
          ((initial_state 5 5) \<lparr>percentage2 := 5\<rparr>)"
    by blast
  from a run mem have s3: "length (data i) = 18 \<and> 0 < uint (data i ! 8) \<and> 0 < uint (data i ! 9)
        \<and> uint (data i ! 8) + uint (data i ! 9) = 100"
    by blast
  from en s1 ne s2 run mem s3 show ?thesis by blast
qed

end
